theory Spec2Isabelle
  imports Main "HOL-Library.AList" "HOL-Library.Sublist"
begin

section \<open>Values and exceptions of the Python program\<close>

text \<open>
  The service (\<^verbatim>\<open>app.py\<close>, \<^verbatim>\<open>constructor_args.py\<close>) passes around what
  \<^verbatim>\<open>Response.json()\<close> returns: dictionaries, lists, strings, numbers, booleans and
  \<^verbatim>\<open>None\<close>. A dictionary is an association list read with \<open>map_of\<close>. Numbers are
  integers here; the program never computes with a number of a response.
\<close>

datatype json =
    JNull
  | JBool bool
  | JNum int
  | JStr string
  | JArr "json list"
  | JObj "(string \<times> json) list"

text \<open>
  Every exception the two source files can raise is a value. \<open>HTTPException\<close> is
  FastAPI's: the status code, the literal text of the detail and the value the f-string
  interpolates after it (\<open>JNull\<close> when the detail is a plain string).
  \<open>ContractNotVerified\<close> is the subclass declared in \<^verbatim>\<open>app.py\<close>; \<open>HTTPError\<close> is
  what \<^verbatim>\<open>raise_for_status\<close> raises, with the status code; the others are Python's own.
\<close>

datatype error =
    HTTPException nat string json
  | ContractNotVerified nat string
  | NotImplementedError string
  | HTTPError nat
  | ConnectionError
  | JSONDecodeError
  | KeyError string
  | IndexError
  | TypeError
  | AttributeError
  | UnboundLocalError string
  | StopIteration

text \<open>\<^verbatim>\<open>bool(v)\<close> and \<^verbatim>\<open>not v\<close>: Python's truth value of a JSON value.\<close>

fun truthy :: "json \<Rightarrow> bool" where
  "truthy JNull = False"
| "truthy (JBool b) = b"
| "truthy (JNum n) = (n \<noteq> 0)"
| "truthy (JStr s) = (s \<noteq> [])"
| "truthy (JArr xs) = (xs \<noteq> [])"
| "truthy (JObj fs) = (fs \<noteq> [])"

text \<open>\<^verbatim>\<open>v[k]\<close> with a string \<open>k\<close>: only a dictionary can be read that way.\<close>

fun getitem :: "json \<Rightarrow> string \<Rightarrow> error + json" where
  "getitem (JObj fs) k = (case map_of fs k of None \<Rightarrow> Inl (KeyError k) | Some v \<Rightarrow> Inr v)"
| "getitem _ k = Inl TypeError"

text \<open>
  \<^verbatim>\<open>v[0]\<close>: the first element of a list, the first character of a string (a string of
  length one); a dictionary parsed from JSON has no key \<open>0\<close>.
\<close>

fun getitem0 :: "json \<Rightarrow> error + json" where
  "getitem0 (JArr []) = Inl IndexError"
| "getitem0 (JArr (x # xs)) = Inr x"
| "getitem0 (JStr []) = Inl IndexError"
| "getitem0 (JStr (c # cs)) = Inr (JStr [c])"
| "getitem0 (JObj fs) = Inl (KeyError ''0'')"
| "getitem0 _ = Inl TypeError"

text \<open>\<^verbatim>\<open>v.get(k)\<close>: a method of dictionaries only; a missing key gives \<^verbatim>\<open>None\<close>.\<close>

fun dict_get :: "json \<Rightarrow> string \<Rightarrow> error + json" where
  "dict_get (JObj fs) k = Inr (case map_of fs k of None \<Rightarrow> JNull | Some v \<Rightarrow> v)"
| "dict_get _ k = Inl AttributeError"

text \<open>\<^verbatim>\<open>len(v)\<close>.\<close>

fun len :: "json \<Rightarrow> error + nat" where
  "len (JStr s) = Inr (length s)"
| "len (JArr xs) = Inr (length xs)"
| "len (JObj fs) = Inr (length fs)"
| "len _ = Inl TypeError"

text \<open>
  \<^verbatim>\<open>xs[-n:]\<close> for \<open>n > 0\<close>: Python starts the slice at \<open>max (len(xs) - n) 0\<close>.
\<close>

definition slice_last :: "'a list \<Rightarrow> int \<Rightarrow> 'a list" where
  "slice_last xs n = drop (nat (max (int (length xs) - n) 0)) xs"

text \<open>
  What \<^verbatim>\<open>requests.get\<close> and \<^verbatim>\<open>requests.post\<close> give back: the connection fails (an
  exception), or a response with a status code and a body that is JSON or not.
\<close>

datatype http_result = ConnFailed | Response nat "json option"

section \<open>The on-chain resolver (\<^verbatim>\<open>constructor_args.py\<close>)\<close>

text \<open>
  The JSON-RPC node is a parameter \<open>rpc\<close>: the answer to a POST of \<open>method\<close> with one
  parameter to \<open>url\<close>.
\<close>

type_synonym node = "string \<Rightarrow> string \<Rightarrow> json \<Rightarrow> http_result"

definition get_creation_tx :: "node \<Rightarrow> string \<Rightarrow> string \<Rightarrow> error + json" where
  "get_creation_tx rpc address url =
     (case rpc url ''ots_getContractCreator'' (JStr address) of
        ConnFailed \<Rightarrow> Inl ConnectionError
      | Response status_code body \<Rightarrow>
          if status_code \<noteq> 200 then Inr JNull
          else (case body of
                  None \<Rightarrow> Inl JSONDecodeError
                | Some results \<Rightarrow>
                    (case getitem results ''result'' of
                       Inl e \<Rightarrow> Inl e
                     | Inr r \<Rightarrow> getitem r ''hash'')))"

definition get_creation_code :: "node \<Rightarrow> json \<Rightarrow> string \<Rightarrow> error + json" where
  "get_creation_code rpc tx url =
     (case rpc url ''eth_getTransactionByHash'' tx of
        ConnFailed \<Rightarrow> Inl ConnectionError
      | Response status_code body \<Rightarrow>
          if status_code \<noteq> 200 then Inr JNull
          else (case body of
                  None \<Rightarrow> Inl JSONDecodeError
                | Some results \<Rightarrow>
                    (case getitem results ''result'' of
                       Inl e \<Rightarrow> Inl e
                     | Inr r \<Rightarrow> getitem r ''input'')))"

text \<open>
  Lines 59 to 66 of \<^verbatim>\<open>constructor_args.py\<close>: the length difference and the slice. The
  creation code is whatever the node's \<open>input\<close> field held; \<^verbatim>\<open>len\<close> fails on a number
  or a boolean, and a dictionary cannot be sliced (its error is a \<^verbatim>\<open>KeyError\<close> from
  Python 3.12 on).
\<close>

definition diff_args :: "json \<Rightarrow> string \<Rightarrow> error + json" where
  "diff_args creation_code bytecode =
     (case len creation_code of
        Inl e \<Rightarrow> Inl e
      | Inr n \<Rightarrow>
          let length = int n - int (List.length bytecode) in
          if length > 0 then
            (case creation_code of
               JStr s \<Rightarrow> Inr (JStr (slice_last s length))
             | JArr xs \<Rightarrow> Inr (JArr (slice_last xs length))
             | _ \<Rightarrow> Inl TypeError)
          else Inr (JStr ''''))"

text \<open>
  \<^verbatim>\<open>rpc_url\<close>, \<^verbatim>\<open>creation_tx_hash\<close> and \<^verbatim>\<open>bytecode\<close> are optional strings
  (\<open>None\<close> is Python's \<^verbatim>\<open>None\<close>); \<^verbatim>\<open>not x\<close> holds of \<^verbatim>\<open>None\<close> and of the empty
  string. \<open>str_of\<close> reads an argument after that check.
\<close>

definition opt_json :: "string option \<Rightarrow> json" where
  "opt_json x = (case x of None \<Rightarrow> JNull | Some s \<Rightarrow> JStr s)"

definition absent :: "string option \<Rightarrow> bool" where
  "absent x = (\<not> truthy (opt_json x))"

definition str_of :: "string option \<Rightarrow> string" where
  "str_of x = (case x of None \<Rightarrow> [] | Some s \<Rightarrow> s)"

text \<open>Lines 44 to 46: the hash given by the caller, or the node's answer.\<close>

definition resolve_tx :: "node \<Rightarrow> string option \<Rightarrow> string \<Rightarrow> string option \<Rightarrow> error + json" where
  "resolve_tx rpc rpc_url address creation_tx_hash =
     (if absent creation_tx_hash \<and> \<not> absent rpc_url
      then get_creation_tx rpc address (str_of rpc_url)
      else Inr (opt_json creation_tx_hash))"

definition do_on_chain_lookup ::
  "node \<Rightarrow> string \<Rightarrow> string option \<Rightarrow> string \<Rightarrow> string option \<Rightarrow> string option \<Rightarrow> error + json"
where
  "do_on_chain_lookup rpc explorer rpc_url address creation_tx_hash bytecode =
     (if absent rpc_url then
        Inl (HTTPException 404 ''no rpc configured for explorer '' (JStr explorer))
      else if absent bytecode then
        Inl (HTTPException 400 ''no bytecode provided for address '' (JStr address))
      else
        (case resolve_tx rpc rpc_url address creation_tx_hash of
           Inl e \<Rightarrow> Inl e
         | Inr tx \<Rightarrow>
             if \<not> truthy tx then
               Inl (HTTPException 404 ''creation tx not found for address '' (JStr address))
             else
               (case get_creation_code rpc tx (str_of rpc_url) of
                  Inl e \<Rightarrow> Inl e
                | Inr creation_code \<Rightarrow>
                    if \<not> truthy creation_code then
                      Inl (HTTPException 404 ''creation code not found for tx '' tx)
                    else diff_args creation_code (str_of bytecode))))"

section \<open>The caching service (\<^verbatim>\<open>app.py\<close>)\<close>

subsection \<open>Configuration and the key rotator\<close>

text \<open>
  \<^verbatim>\<open>config.toml\<close> is a parameter: a table per explorer with its \<open>url\<close>, its \<open>keys\<close>
  and, optionally, an \<open>rpc\<close> table with \<open>chain_id\<close> and \<open>url\<close>.
\<close>

record rpc_cfg =
  rpc_chain_id :: int
  rpc_node_url :: string

record explorer_cfg =
  cfg_url :: string
  cfg_keys :: "string list"
  cfg_rpc :: "rpc_cfg option"

type_synonym toml = "(string \<times> explorer_cfg) list"

text \<open>Lines 26 to 33: the two tables built from the configuration, in its order.\<close>

definition CHAINS :: "toml \<Rightarrow> (string \<times> int) list" where
  "CHAINS config =
     fold (\<lambda>(explorer, c) m. case cfg_rpc c of
                                 None \<Rightarrow> m
                               | Some r \<Rightarrow> AList.update explorer (rpc_chain_id r) m) config []"

definition RPC_URLS :: "toml \<Rightarrow> (int \<times> string) list" where
  "RPC_URLS config =
     fold (\<lambda>(explorer, c) m. case cfg_rpc c of
                                 None \<Rightarrow> m
                               | Some r \<Rightarrow> AList.update (rpc_chain_id r) (rpc_node_url r) m) config []"

text \<open>
  \<^verbatim>\<open>itertools.cycle\<close>, as the library documents it: the iterator hands out the elements of
  its argument, saving each; once the argument is exhausted it hands out the saved
  elements, pass after pass. \<open>pending\<close> is what is left of the argument, \<open>replay\<close> what
  is left of the current pass over \<open>saved\<close>. \<^verbatim>\<open>next\<close> of a cycle over nothing raises
  \<^verbatim>\<open>StopIteration\<close>.
\<close>

datatype 'a cycle = Cycle (pending: "'a list") (saved: "'a list") (replay: "'a list")

definition cycle :: "'a list \<Rightarrow> 'a cycle" where
  "cycle xs = Cycle xs [] []"

fun cycle_next :: "'a cycle \<Rightarrow> error + ('a \<times> 'a cycle)" where
  "cycle_next (Cycle (x # p) s r) = Inr (x, Cycle p (s @ [x]) r)"
| "cycle_next (Cycle [] [] r) = Inl StopIteration"
| "cycle_next (Cycle [] (y # s) []) = Inr (y, Cycle [] (y # s) s)"
| "cycle_next (Cycle [] (y # s) (x # r)) = Inr (x, Cycle [] (y # s) r)"

subsection \<open>State\<close>

text \<open>
  A cache key is the tuple diskcache builds for a call of \<^verbatim>\<open>get_from_upstream\<close>: the
  function's name, then the four arguments \<open>explorer\<close>, \<open>module\<close>, \<open>action\<close> and
  \<open>address\<close> (\<open>key[1]\<close> to \<open>key[4]\<close>). The name is the same in every key of the cache and
  is left out. The TTL cache of \<^verbatim>\<open>weak_cache\<close> is keyed by the same four arguments.
\<close>

type_synonym cache_key = "string \<times> string \<times> string \<times> string"

definition key1 :: "cache_key \<Rightarrow> string" where
  "key1 key = fst key"

definition key3 :: "cache_key \<Rightarrow> string" where
  "key3 key = fst (snd (snd key))"

definition key4 :: "cache_key \<Rightarrow> string" where
  "key4 key = snd (snd (snd key))"

text \<open>A GET sent to an explorer: the url and the four query parameters.\<close>

datatype request = Get string string string string string

type_synonym web = "nat \<Rightarrow> request \<Rightarrow> http_result"

text \<open>
  The module's globals: \<open>cache\<close> is the disk cache, \<open>weak\<close> the TTL cache behind
  \<^verbatim>\<open>weak_cache\<close> (entries with the time they expire, least recently used first),
  \<open>keys\<close> the dictionary of key iterators. \<open>sent\<close> records the requests sent upstream,
  oldest first; the explorers are a parameter \<open>web\<close> that answers a request given the
  number of requests sent before it. The disk cache's hit and miss counters, read only by
  \<^verbatim>\<open>/stats\<close>, and its culling above the size limit of line 23, which only removes
  entries, are left out.
\<close>

record state =
  cache :: "(cache_key \<times> json) list"
  weak :: "(cache_key \<times> json \<times> nat) list"
  keys :: "(string \<times> string cycle) list"
  sent :: "request list"

definition boot :: "toml \<Rightarrow> state" where
  "boot config =
     \<lparr>cache = [], weak = [],
      keys = map (\<lambda>(explorer, c). (explorer, cycle (cfg_keys c))) config,
      sent = []\<rparr>"

subsection \<open>The TTL cache (\<^verbatim>\<open>cachetools.func.ttl_cache\<close>)\<close>

text \<open>
  The decorator of line 51 keeps at most \<open>maxsize\<close> results (the library's default, 128),
  each for \<open>ttl\<close> seconds of its timer. A hit makes the entry the most recently used.
  A store first drops the expired entries, then the least recently used ones while the
  cache is full. A call that raises stores nothing.
\<close>

definition ttl :: nat where
  "ttl = 60 * 60"

definition maxsize :: nat where
  "maxsize = 128"

definition ttl_get :: "nat \<Rightarrow> cache_key \<Rightarrow> (cache_key \<times> json \<times> nat) list \<Rightarrow> json option" where
  "ttl_get now k c =
     (case map_of c k of
        None \<Rightarrow> None
      | Some (v, expires) \<Rightarrow> if now < expires then Some v else None)"

definition ttl_touch :: "cache_key \<Rightarrow> (cache_key \<times> json \<times> nat) list \<Rightarrow> (cache_key \<times> json \<times> nat) list" where
  "ttl_touch k c = filter (\<lambda>e. fst e \<noteq> k) c @ filter (\<lambda>e. fst e = k) c"

definition ttl_set ::
  "nat \<Rightarrow> cache_key \<Rightarrow> json \<Rightarrow> (cache_key \<times> json \<times> nat) list \<Rightarrow> (cache_key \<times> json \<times> nat) list"
where
  "ttl_set now k v c =
     (let live = filter (\<lambda>e. now < snd (snd e) \<and> fst e \<noteq> k) c
      in drop (Suc (length live) - maxsize) live @ [(k, v, now + ttl)])"

subsection \<open>Fetching and verifying\<close>

text \<open>
  \<^verbatim>\<open>next(keys[explorer])\<close>, the key rotator: the next key of the explorer's iterator,
  which advances. \<open>next_keys n\<close> is \<open>n\<close> such calls in sequence.
\<close>

definition next_key :: "state \<Rightarrow> string \<Rightarrow> error + (string \<times> state)" where
  "next_key s explorer =
     (case map_of (keys s) explorer of
        None \<Rightarrow> Inl (KeyError explorer)
      | Some it \<Rightarrow>
          (case cycle_next it of
             Inl e \<Rightarrow> Inl e
           | Inr (apiKey, it') \<Rightarrow>
               Inr (apiKey, s\<lparr>keys := AList.update explorer it' (keys s)\<rparr>)))"

fun next_keys :: "nat \<Rightarrow> state \<Rightarrow> string \<Rightarrow> string list" where
  "next_keys 0 s explorer = []"
| "next_keys (Suc n) s explorer =
     (case next_key s explorer of
        Inl e \<Rightarrow> []
      | Inr (apiKey, s') \<Rightarrow> apiKey # next_keys n s' explorer)"

text \<open>
  Lines 53 to 65, the body of \<^verbatim>\<open>weak_cache\<close>: the GET with the next key of the
  explorer's iterator. \<^verbatim>\<open>raise_for_status\<close> raises on the codes 400 to 599.
\<close>

definition weak_cache_wrapped ::
  "toml \<Rightarrow> web \<Rightarrow> state \<Rightarrow> string \<Rightarrow> string \<Rightarrow> string \<Rightarrow> string \<Rightarrow> (error + json) \<times> state"
where
  "weak_cache_wrapped config web s explorer module action address =
     (case map_of config explorer of
        None \<Rightarrow> (Inl (KeyError explorer), s)
      | Some c \<Rightarrow>
          (case next_key s explorer of
             Inl e \<Rightarrow> (Inl e, s)
           | Inr (apiKey, s0) \<Rightarrow>
               let req = Get (cfg_url c) module action address apiKey;
                   s1 = s0\<lparr>sent := sent s0 @ [req]\<rparr>
               in (case web (length (sent s0)) req of
                     ConnFailed \<Rightarrow> (Inl ConnectionError, s1)
                   | Response status_code body \<Rightarrow>
                       if 400 \<le> status_code \<and> status_code < 600
                       then (Inl (HTTPError status_code), s1)
                       else (case body of
                               None \<Rightarrow> (Inl JSONDecodeError, s1)
                             | Some resp \<Rightarrow> (Inr resp, s1)))))"

text \<open>
  \<^verbatim>\<open>weak_cache\<close> as decorated. \<open>now\<close> is the reading of the library's timer, in
  seconds, at this call.
\<close>

definition weak_cache ::
  "toml \<Rightarrow> web \<Rightarrow> nat \<Rightarrow> state \<Rightarrow> string \<Rightarrow> string \<Rightarrow> string \<Rightarrow> string \<Rightarrow> (error + json) \<times> state"
where
  "weak_cache config web now s explorer module action address =
     (let k = (explorer, module, action, address) in
      case ttl_get now k (weak s) of
        Some v \<Rightarrow> (Inr v, s\<lparr>weak := ttl_touch k (weak s)\<rparr>)
      | None \<Rightarrow>
          (case weak_cache_wrapped config web s explorer module action address of
             (Inl e, s1) \<Rightarrow> (Inl e, s1)
           | (Inr v, s1) \<Rightarrow> (Inr v, s1\<lparr>weak := ttl_set now k v (weak s1)\<rparr>)))"

text \<open>Lines 73 to 78: the verification predicate, or the exception it raises.\<close>

definition is_verified :: "string \<Rightarrow> json \<Rightarrow> error + bool" where
  "is_verified action resp =
     (if action = ''getsourcecode'' then
        (case getitem resp ''result'' of
           Inl e \<Rightarrow> Inl e
         | Inr result \<Rightarrow>
             (case getitem0 result of
                Inl e \<Rightarrow> Inl e
              | Inr entry \<Rightarrow>
                  (case dict_get entry ''SourceCode'' of
                     Inl e \<Rightarrow> Inl e
                   | Inr source \<Rightarrow> Inr (truthy source))))
      else if action = ''getabi'' then
        (case getitem resp ''result'' of
           Inl e \<Rightarrow> Inl e
         | Inr result \<Rightarrow> Inr (\<not> result = JStr ''Contract source code not verified''))
      else Inl (NotImplementedError action))"

text \<open>Lines 70 to 81, the body of \<^verbatim>\<open>get_from_upstream\<close>.\<close>

definition get_from_upstream_wrapped ::
  "toml \<Rightarrow> web \<Rightarrow> nat \<Rightarrow> state \<Rightarrow> string \<Rightarrow> string \<Rightarrow> string \<Rightarrow> string \<Rightarrow> (error + json) \<times> state"
where
  "get_from_upstream_wrapped config web now s explorer module action address =
     (case weak_cache config web now s explorer module action address of
        (Inl e, s1) \<Rightarrow> (Inl e, s1)
      | (Inr resp, s1) \<Rightarrow>
          (case is_verified action resp of
             Inl e \<Rightarrow> (Inl e, s1)
           | Inr ok \<Rightarrow>
               if \<not> ok
               then (Inl (ContractNotVerified 404 ''contract source code not verified''), s1)
               else (Inr resp, s1)))"

text \<open>
  \<^verbatim>\<open>get_from_upstream\<close> as decorated. \<^verbatim>\<open>cache.memoize()\<close> returns the stored result of
  the key, or calls the body and stores what it returns; an exception stores nothing.
  \<^verbatim>\<open>stampede\<close> runs that under the key's lock, acquired on entry and released on every
  exit: in one thread of control it changes neither the result nor the caches.
\<close>

definition get_from_upstream ::
  "toml \<Rightarrow> web \<Rightarrow> nat \<Rightarrow> state \<Rightarrow> string \<Rightarrow> string \<Rightarrow> string \<Rightarrow> string \<Rightarrow> (error + json) \<times> state"
where
  "get_from_upstream config web now s explorer module action address =
     (let key = (explorer, module, action, address) in
      case map_of (cache s) key of
        Some result \<Rightarrow> (Inr result, s)
      | None \<Rightarrow>
          (case get_from_upstream_wrapped config web now s explorer module action address of
             (Inl e, s1) \<Rightarrow> (Inl e, s1)
           | (Inr result, s1) \<Rightarrow>
               (Inr result, s1\<lparr>cache := AList.update key result (cache s1)\<rparr>)))"

subsection \<open>The endpoints\<close>

text \<open>
  \<^verbatim>\<open>to_checksum_address\<close> of \<^verbatim>\<open>eth_utils\<close> is a parameter \<open>cs\<close>: \<open>None\<close> is its
  \<^verbatim>\<open>ValueError\<close>. Lines 100 to 103 and 186 to 189 are the same lookup with its fallback:
  two calls of \<^verbatim>\<open>weak_cache\<close>, the one of line 71 at the timer reading \<open>now\<close>, the
  fallback at the reading \<open>later\<close>.
\<close>

type_synonym checksum = "string \<Rightarrow> string option"

definition lookup ::
  "toml \<Rightarrow> web \<Rightarrow> nat \<Rightarrow> nat \<Rightarrow> state \<Rightarrow> string \<Rightarrow> string \<Rightarrow> string \<Rightarrow> string \<Rightarrow> (error + json) \<times> state"
where
  "lookup config web now later s explorer module action address =
     (case get_from_upstream config web now s explorer module action address of
        (Inl (ContractNotVerified code detail), s1) \<Rightarrow>
          weak_cache config web later s1 explorer module action address
      | r \<Rightarrow> r)"

definition cached_api ::
  "toml \<Rightarrow> checksum \<Rightarrow> web \<Rightarrow> nat \<Rightarrow> nat \<Rightarrow> state \<Rightarrow> string \<Rightarrow> string \<Rightarrow> string \<Rightarrow> string
    \<Rightarrow> (error + json) \<times> state"
where
  "cached_api config cs web now later s explorer module action address =
     (if map_of config explorer = None then
        (Inl (HTTPException 400 ''explorer not supported'' JNull), s)
      else if module \<notin> set [''contract''] then
        (Inl (HTTPException 400 ''module not supported'' JNull), s)
      else if action \<notin> set [''getsourcecode'', ''getabi''] then
        (Inl (HTTPException 400 ''action not supported'' JNull), s)
      else
        (case cs address of
           None \<Rightarrow> (Inl (HTTPException 400 ''invalid address'' JNull), s)
         | Some address' \<Rightarrow> lookup config web now later s explorer module action address'))"

text \<open>
  Lines 107 to 114. \<^verbatim>\<open>cache.delete\<close> is true of a key the cache holds, as every key the
  iteration yields is.
\<close>

definition invalidate :: "state \<Rightarrow> string \<Rightarrow> string \<Rightarrow> json \<times> state" where
  "invalidate s explorer address =
     (let hit = (\<lambda>key. (key1 key, key4 key) = (explorer, address));
          deleted = length (filter (\<lambda>e. hit (fst e)) (cache s))
      in (JObj [(''deleted'', JNum (int deleted))],
          s\<lparr>cache := filter (\<lambda>e. \<not> hit (fst e)) (cache s)\<rparr>))"

text \<open>
  Lines 170 to 179. Every chain id of \<open>CHAINS\<close> is a key of \<open>RPC_URLS\<close> and a TOML value
  is never \<^verbatim>\<open>None\<close>, so the two checks of lines 174 and 176 are kept as one missing key.
\<close>

definition rpc_url_of :: "toml \<Rightarrow> string \<Rightarrow> error + string option" where
  "rpc_url_of config explorer =
     (case map_of (CHAINS config) explorer of
        None \<Rightarrow> Inr None
      | Some chain_id \<Rightarrow>
          (case map_of (RPC_URLS config) chain_id of
             None \<Rightarrow> Inl (HTTPException 404 ''no rpc configured for explorer '' (JStr explorer))
           | Some u \<Rightarrow> Inr (Some u)))"

text \<open>
  Lines 190 to 193: the value the explorer reports, \<open>None\<close> when no branch assigns the
  local variable \<^verbatim>\<open>args\<close>. \<^verbatim>\<open>"result" in res\<close> is evaluated only after
  \<^verbatim>\<open>res["message"]\<close> succeeded, on a dictionary.
\<close>

fun has_key :: "json \<Rightarrow> string \<Rightarrow> bool" where
  "has_key (JObj fs) k = (map_of fs k \<noteq> None)"
| "has_key _ k = False"

definition explorer_args :: "json \<Rightarrow> error + json option" where
  "explorer_args res =
     (case getitem res ''message'' of
        Inl e \<Rightarrow> Inl e
      | Inr message \<Rightarrow>
          if message = JStr ''OK'' \<and> has_key res ''result'' then
            (case getitem res ''result'' of
               Inl e \<Rightarrow> Inl e
             | Inr results \<Rightarrow>
                 (case len results of
                    Inl e \<Rightarrow> Inl e
                  | Inr n \<Rightarrow>
                      if n > 0 then
                        (case getitem0 results of
                           Inl e \<Rightarrow> Inl e
                         | Inr entry \<Rightarrow>
                             (case getitem entry ''ConstructorArguments'' of
                                Inl e \<Rightarrow> Inl e
                              | Inr args \<Rightarrow> Inr (Some args)))
                      else Inr None))
          else Inr None)"

definition answer :: "string \<Rightarrow> json \<Rightarrow> json" where
  "answer address args = JObj [(''address'', JStr address), (''constructor_args'', args)]"

definition constructor_args ::
  "toml \<Rightarrow> checksum \<Rightarrow> web \<Rightarrow> node \<Rightarrow> nat \<Rightarrow> nat \<Rightarrow> state \<Rightarrow> string \<Rightarrow> string \<Rightarrow> bool
    \<Rightarrow> string option \<Rightarrow> string option \<Rightarrow> (error + json) \<times> state"
where
  "constructor_args config cs web rpc now later s explorer address on_chain_lookup creation_tx_hash bytecode =
     (case cs address of
        None \<Rightarrow> (Inl (HTTPException 400 ''invalid address'' JNull), s)
      | Some address' \<Rightarrow>
          (case rpc_url_of config explorer of
             Inl e \<Rightarrow> (Inl e, s)
           | Inr rpc_url \<Rightarrow>
               if on_chain_lookup then
                 (case do_on_chain_lookup rpc explorer rpc_url address' creation_tx_hash bytecode of
                    Inl e \<Rightarrow> (Inl e, s)
                  | Inr args \<Rightarrow> (Inr (answer address' args), s))
               else
                 (case lookup config web now later s explorer ''contract'' ''getsourcecode'' address' of
                    (Inl e, s1) \<Rightarrow> (Inl e, s1)
                  | (Inr res, s1) \<Rightarrow>
                      (case explorer_args res of
                         Inl e \<Rightarrow> (Inl e, s1)
                       | Inr None \<Rightarrow> (Inl (UnboundLocalError ''args''), s1)
                       | Inr (Some args) \<Rightarrow>
                           if \<not> truthy args then
                             (case do_on_chain_lookup rpc explorer rpc_url address'
                                     creation_tx_hash bytecode of
                                Inl e \<Rightarrow> (Inl e, s1)
                              | Inr args' \<Rightarrow> (Inr (answer address' args'), s1))
                           else (Inr (answer address' args), s1)))))"

text \<open>
  A run of the service: the requests it serves, one after the other, each with its two
  timer readings.
\<close>

datatype call =
    Api nat nat string string string string
  | Delete string string
  | Args nat nat string string bool "string option" "string option"

fun serve :: "toml \<Rightarrow> checksum \<Rightarrow> web \<Rightarrow> node \<Rightarrow> call \<Rightarrow> state \<Rightarrow> state" where
  "serve config cs web rpc (Api now later explorer module action address) s =
     snd (cached_api config cs web now later s explorer module action address)"
| "serve config cs web rpc (Delete explorer address) s =
     snd (invalidate s explorer address)"
| "serve config cs web rpc (Args now later explorer address on_chain tx bytecode) s =
     snd (constructor_args config cs web rpc now later s explorer address on_chain tx bytecode)"

definition run :: "toml \<Rightarrow> checksum \<Rightarrow> web \<Rightarrow> node \<Rightarrow> call list \<Rightarrow> state \<Rightarrow> state" where
  "run config cs web rpc calls s = fold (serve config cs web rpc) calls s"

section \<open>Notions the properties are stated with\<close>

text \<open>The trailing \<open>n\<close> elements of a list, in the words of the specification.\<close>

definition trailing :: "nat \<Rightarrow> 'a list \<Rightarrow> 'a list" where
  "trailing n xs = rev (take n (rev xs))"

text \<open>The iterator \<open>cycle ks\<close> after \<open>m\<close> calls of \<^verbatim>\<open>next\<close>.\<close>

definition after :: "'a list \<Rightarrow> nat \<Rightarrow> 'a cycle" where
  "after ks m =
     (if m \<le> length ks then Cycle (drop m ks) (take m ks) []
      else Cycle [] ks (drop (Suc ((m - Suc (length ks)) mod length ks)) ks))"

text \<open>A configuration with one explorer, three keys and a node.\<close>

definition example_explorer :: explorer_cfg where
  "example_explorer =
     \<lparr>cfg_url = ''https://api.etherscan.io/api'', cfg_keys = [''k1'', ''k2'', ''k3''],
      cfg_rpc = Some \<lparr>rpc_chain_id = 1, rpc_node_url = ''http://node''\<rparr>\<rparr>"

definition example_config :: toml where
  "example_config = [(''etherscan'', example_explorer)]"

text \<open>Every entry of the disk cache passes the verification predicate of its action.\<close>

definition verified_only :: "state \<Rightarrow> bool" where
  "verified_only s = list_all (\<lambda>e. is_verified (key3 (fst e)) (snd e) = Inr True) (cache s)"

text \<open>Every key of the disk cache holds an address in the checksum's own form.\<close>

definition canonical :: "checksum \<Rightarrow> state \<Rightarrow> bool" where
  "canonical cs s = list_all (\<lambda>e. cs (key4 (fst e)) = Some (key4 (fst e))) (cache s)"

text \<open>Repeated calls of \<^verbatim>\<open>get_from_upstream\<close> for one key, at the given times.\<close>

fun lookups ::
  "toml \<Rightarrow> web \<Rightarrow> state \<Rightarrow> string \<Rightarrow> string \<Rightarrow> string \<Rightarrow> string \<Rightarrow> nat list
    \<Rightarrow> (error + json) list \<times> state"
where
  "lookups config web s explorer module action address [] = ([], s)"
| "lookups config web s explorer module action address (now # instants) =
     (case get_from_upstream config web now s explorer module action address of
        (r, s1) \<Rightarrow>
          (case lookups config web s1 explorer module action address instants of
             (rs, s2) \<Rightarrow> (r # rs, s2)))"

text \<open>
  Nodes for the examples: one that knows the creation transaction and answers with the
  given input, and one whose every answer is \<^verbatim>\<open>{"jsonrpc": "2.0", "id": 1, "result": null}\<close>,
  what a node answers for a transaction or a contract it does not know.
\<close>

definition node_of :: "string \<Rightarrow> node" where
  "node_of input url method param =
     (if method = ''ots_getContractCreator''
      then Response 200 (Some (JObj [(''jsonrpc'', JStr ''2.0''), (''id'', JNum 1),
             (''result'', JObj [(''hash'', JStr ''0x01''), (''creator'', JStr ''0x02'')])]))
      else Response 200 (Some (JObj [(''jsonrpc'', JStr ''2.0''), (''id'', JNum 1),
             (''result'', JObj [(''hash'', param), (''input'', JStr input)])])))"

definition node_null :: node where
  "node_null url method param =
     Response 200 (Some (JObj [(''jsonrpc'', JStr ''2.0''), (''id'', JNum 1), (''result'', JNull)]))"

text \<open>
  Explorers for the examples. \<open>reply\<close> is a source-code answer in the explorer's format;
  an unverified contract has an empty \<open>SourceCode\<close>. An answer to a request with a key the
  explorer does not accept has the message of \<open>web_keyless\<close>.
\<close>

definition reply :: "string \<Rightarrow> string \<Rightarrow> string \<Rightarrow> json" where
  "reply message source args =
     JObj [(''status'', JStr ''1''), (''message'', JStr message),
           (''result'', JArr [JObj [(''SourceCode'', JStr source), (''ABI'', JStr ''[]''),
                                    (''ContractName'', JStr ''C''),
                                    (''ConstructorArguments'', JStr args)]])]"

definition web_verified :: web where
  "web_verified n req = Response 200 (Some (reply ''OK'' ''contract C {}'' ''00ff''))"

definition web_unverified :: web where
  "web_unverified n req = Response 200 (Some (reply ''OK'' '''' ''''))"

definition web_keyless :: web where
  "web_keyless n req =
     Response 200 (Some (reply ''OK-Missing/Invalid API Key, rate limit of 1/5sec applied''
                           ''contract C {}'' ''''))"

definition web_down :: web where
  "web_down n req = Response 500 None"

text \<open>
  Addresses for the examples: a token contract in lower case and in its checksummed
  form, and a second contract. \<open>example_cs\<close> stands in for \<^verbatim>\<open>to_checksum_address\<close>: it
  knows the first contract, in both forms, and rejects every other string.
\<close>

definition dai_lower :: string where
  "dai_lower = ''0x6b175474e89094c44da98b954eedeac495271d0f''"

definition dai :: string where
  "dai = ''0x6B175474E89094C44Da98b954EedeAC495271d0F''"

definition weth :: string where
  "weth = ''0xC02aaA39b223FE8D0A0e5C4F27eAD9083C756Cc2''"

definition example_cs :: checksum where
  "example_cs a = (if a = dai_lower \<or> a = dai then Some dai else None)"

text \<open>An explorer whose answer has an empty result list.\<close>

definition web_empty :: web where
  "web_empty n req =
     Response 200 (Some (JObj [(''status'', JStr ''0''), (''message'', JStr ''NOTOK''),
                               (''result'', JArr [])]))"

text \<open>Answers to an ABI query, of an unverified and of a verified contract.\<close>

definition abi_reply :: "string \<Rightarrow> json" where
  "abi_reply abi = JObj [(''status'', JStr ''1''), (''message'', JStr ''OK''), (''result'', JStr abi)]"

text \<open>A node that refuses every call.\<close>

definition node_down :: node where
  "node_down url method param = Response 503 None"

text \<open>
  A node without the contract-creator call: it answers with a JSON-RPC error object,
  status 200.
\<close>

definition node_no_method :: node where
  "node_no_method url method param =
     Response 200 (Some (JObj [(''jsonrpc'', JStr ''2.0''), (''id'', JNum 1),
       (''error'', JObj [(''code'', JNum (- 32601)),
                         (''message'', JStr ''the method does not exist/is not available'')])]))"

text \<open>
  A state for the examples of invalidation: the disk cache holds both actions of one
  contract and one action of another.
\<close>

definition example_state :: state where
  "example_state =
     (boot example_config)
       \<lparr>cache := [((''etherscan'', ''contract'', ''getsourcecode'', dai),
                    reply ''OK'' ''contract C {}'' ''00ff''),
                   ((''etherscan'', ''contract'', ''getabi'', dai), abi_reply ''[]''),
                   ((''etherscan'', ''contract'', ''getabi'', weth), abi_reply ''[]'')],
        weak := [((''etherscan'', ''contract'', ''getabi'', dai), abi_reply ''[]'', 3600)]\<rparr>"

text \<open>A request that invalidates the entries of the given explorer and address.\<close>

fun deletes :: "call \<Rightarrow> string \<Rightarrow> string \<Rightarrow> bool" where
  "deletes (Delete e a) explorer address = (e = explorer \<and> a = address)"
| "deletes _ explorer address = False"

text \<open>An explorer that answers its first request and fails from then on.\<close>

definition web_once :: web where
  "web_once n req =
     (if n = 0 then Response 200 (Some (reply ''OK'' ''contract C {}'' ''00ff''))
      else Response 500 None)"

text \<open>
  An explorer that answers its first request with an unverified contract and fails from
  then on, and one that answers every request with its rate-limit message, whose result
  is a string.
\<close>

definition web_unverified_once :: web where
  "web_unverified_once n req =
     (if n = 0 then Response 200 (Some (reply ''OK'' '''' '''')) else Response 500 None)"

definition rate_limited :: json where
  "rate_limited =
     JObj [(''status'', JStr ''0''), (''message'', JStr ''NOTOK''),
           (''result'', JStr ''Max rate limit reached'')]"

definition web_rate_limited :: web where
  "web_rate_limited n req = Response 200 (Some rate_limited)"

section \<open>Properties\<close>

subsection \<open>The addresses of the examples\<close>

lemma dai_lower_neq: "dai \<noteq> dai_lower"
  by (simp add: dai_def dai_lower_def)

lemma weth_neq: "weth \<noteq> dai"
  by (simp add: dai_def weth_def)

lemma example_cs_dai: "example_cs dai_lower = Some dai" "example_cs dai = Some dai"
  by (simp_all add: example_cs_def)

subsection \<open>The key rotator\<close>

lemma after_0: "after ks 0 = cycle ks"
  by (simp add: after_def cycle_def)

lemma cycle_next_after:
  assumes "ks \<noteq> []"
  shows "cycle_next (after ks m) = Inr (ks ! (m mod length ks), after ks (Suc m))"
proof -
  let ?n = "length ks"
  have pos: "0 < ?n" using assms by simp
  obtain y s where ks: "ks = y # s" using assms by (cases ks) auto
  consider (first) "m < ?n" | (wrap) "m = ?n" | (again) "?n < m" by linarith
  then show ?thesis
  proof cases
    case first
    then have "drop m ks = ks ! m # drop (Suc m) ks"
      by (simp add: Cons_nth_drop_Suc)
    moreover have "take (Suc m) ks = take m ks @ [ks ! m]"
      using first by (simp add: take_Suc_conv_app_nth)
    ultimately show ?thesis using first by (simp add: after_def)
  next
    case wrap
    then show ?thesis by (simp add: after_def ks)
  next
    case again
    define r where "r = (m - Suc ?n) mod ?n"
    have r: "r < ?n" using pos by (simp add: r_def)
    have m: "m = Suc (m - Suc ?n) + ?n" using again by simp
    have "m mod ?n = Suc (m - Suc ?n) mod ?n"
      by (subst m) (simp only: mod_add_self2)
    then have mm: "m mod ?n = (if Suc r = ?n then 0 else Suc r)"
      by (simp add: mod_Suc r_def)
    have "(Suc m - Suc ?n) = Suc (m - Suc ?n)" using again by simp
    then have nx: "(Suc m - Suc ?n) mod ?n = (if Suc r = ?n then 0 else Suc r)"
      by (simp add: mod_Suc r_def)
    have cur: "after ks m = Cycle [] ks (drop (Suc r) ks)"
      using again by (simp add: after_def r_def)
    have nxt: "after ks (Suc m) = Cycle [] ks (drop (Suc (if Suc r = ?n then 0 else Suc r)) ks)"
      using again nx by (simp add: after_def)
    show ?thesis
    proof (cases "Suc r = ?n")
      case True
      then show ?thesis using cur nxt mm by (simp add: ks)
    next
      case False
      then have lt: "Suc r < ?n" using r by simp
      then have "drop (Suc r) ks = ks ! Suc r # drop (Suc (Suc r)) ks"
        by (simp add: Cons_nth_drop_Suc)
      then show ?thesis using cur nxt mm False by (simp add: ks)
    qed
  qed
qed

lemma next_keys_after:
  assumes "ks \<noteq> []"
  shows "map_of (keys s) explorer = Some (after ks m) \<Longrightarrow>
         next_keys n s explorer = map (\<lambda>i. ks ! ((m + i) mod length ks)) [0..<n]"
proof (induction n arbitrary: s m)
  case 0
  then show ?case by simp
next
  case (Suc n)
  let ?s' = "s\<lparr>keys := AList.update explorer (after ks (Suc m)) (keys s)\<rparr>"
  have step: "next_key s explorer = Inr (ks ! (m mod length ks), ?s')"
    using Suc.prems assms by (simp add: next_key_def cycle_next_after)
  have "map_of (keys ?s') explorer = Some (after ks (Suc m))"
    by (simp add: update_conv')
  then have "next_keys n ?s' explorer = map (\<lambda>i. ks ! ((Suc m + i) mod length ks)) [0..<n]"
    by (rule Suc.IH)
  then show ?case using step
    by (simp add: upt_conv_Cons map_Suc_upt [symmetric] del: upt_Suc)
qed

lemma boot_keys:
  "map_of config explorer = Some c \<Longrightarrow>
   map_of (keys (boot config)) explorer = Some (cycle (cfg_keys c))"
  by (induction config) (auto simp: boot_def)

text \<open>
  C9. For an explorer configured with a non-empty key list, \<open>n\<close> sequential calls of the
  rotator, from the start of the service, return the keys at the indices
  \<open>0 mod l, 1 mod l, \<dots>, (n - 1) mod l\<close> of the list, \<open>l\<close> its length: round-robin
  order, wrapping for every \<open>n\<close>.
\<close>

theorem key_rotation:
  assumes "map_of config explorer = Some c" and "cfg_keys c \<noteq> []"
  shows "next_keys n (boot config) explorer =
           map (\<lambda>i. cfg_keys c ! (i mod length (cfg_keys c))) [0..<n]"
  using next_keys_after [OF assms(2), of "boot config" explorer 0 n] boot_keys [OF assms(1)]
  by (simp add: after_0)

theorem key_rotation_witness:
  "next_keys 5 (boot example_config) ''etherscan'' = [''k1'', ''k2'', ''k3'', ''k1'', ''k2'']"
proof -
  have c: "map_of example_config ''etherscan'' = Some example_explorer"
    by (simp add: example_config_def)
  have "[0..<5] = [0, 1, 2, 3, 4::nat]" by (simp add: upt_rec)
  with key_rotation [OF c, of 5] show ?thesis by (simp add: example_explorer_def)
qed

subsection \<open>The on-chain resolver\<close>

lemma slice_last_trailing: "0 < n \<Longrightarrow> slice_last xs n = trailing (nat n) xs"
  by (simp add: slice_last_def trailing_def rev_take max_def nat_diff_distrib')

text \<open>
  C3. With a non-empty reference bytecode and a fetched creation code, the resolver
  returns the trailing \<open>len(creationCode) - len(bytecode)\<close> characters of the creation
  code when that difference of string lengths is positive, and the empty string, not an
  error, when it is not.
\<close>

theorem on_chain_diff:
  assumes "\<not> absent rpc_url" and "bytecode = Some bc" and "bc \<noteq> []"
    and "resolve_tx rpc rpc_url address creation_tx_hash = Inr tx" and "truthy tx"
    and "get_creation_code rpc tx (str_of rpc_url) = Inr (JStr creationCode)"
    and "creationCode \<noteq> []"
  shows "do_on_chain_lookup rpc explorer rpc_url address creation_tx_hash bytecode =
           Inr (JStr (if int (length creationCode) - int (length bc) > 0
                      then trailing (nat (int (length creationCode) - int (length bc))) creationCode
                      else ''''))"
proof -
  have "\<not> absent bytecode"
    using assms(2,3) by (simp add: absent_def opt_json_def)
  moreover have "diff_args (JStr creationCode) bc =
      Inr (JStr (if int (length creationCode) - int (length bc) > 0
                 then trailing (nat (int (length creationCode) - int (length bc))) creationCode
                 else ''''))"
    by (simp add: diff_args_def Let_def slice_last_trailing)
  ultimately show ?thesis
    using assms by (simp add: do_on_chain_lookup_def str_of_def)
qed

theorem on_chain_diff_witness:
  "do_on_chain_lookup (node_of ''aabbccddeeff'') ''etherscan'' (Some ''http://node'') dai
      None (Some ''aabbcc'') = Inr (JStr ''ddeeff'') \<and>
   do_on_chain_lookup (node_of ''aabbcc'') ''etherscan'' (Some ''http://node'') dai
      (Some ''0x01'') (Some ''aabbccdd'') = Inr (JStr '''')"
proof -
  have a: "\<not> absent (Some ''http://node'')"
    by (simp add: absent_def opt_json_def)
  have tx1: "resolve_tx (node_of ''aabbccddeeff'') (Some ''http://node'') dai None
               = Inr (JStr ''0x01'')"
    by (simp add: resolve_tx_def absent_def opt_json_def get_creation_tx_def node_of_def str_of_def)
  have tx2: "resolve_tx (node_of ''aabbcc'') (Some ''http://node'') dai (Some ''0x01'')
               = Inr (JStr ''0x01'')"
    by (simp add: resolve_tx_def absent_def opt_json_def)
  have cc: "get_creation_code (node_of i) (JStr ''0x01'') (str_of (Some ''http://node''))
              = Inr (JStr i)" for i
    by (simp add: get_creation_code_def node_of_def)
  have t: "truthy (JStr ''0x01'')" by simp
  have "trailing 6 ''aabbccddeeff'' = ''ddeeff''"
    by (simp add: trailing_def)
  then show ?thesis
    using on_chain_diff [OF a refl _ tx1 t cc, of "''aabbcc''" "''etherscan''"]
          on_chain_diff [OF a refl _ tx2 t cc, of "''aabbccdd''" "''etherscan''"]
    by simp
qed

text \<open>The four guards of the resolver, each with its status code.\<close>

lemma on_chain_not_configured:
  "absent rpc_url \<Longrightarrow>
   do_on_chain_lookup rpc explorer rpc_url address creation_tx_hash bytecode =
     Inl (HTTPException 404 ''no rpc configured for explorer '' (JStr explorer))"
  by (simp add: do_on_chain_lookup_def)

lemma on_chain_no_bytecode:
  "\<not> absent rpc_url \<Longrightarrow> absent bytecode \<Longrightarrow>
   do_on_chain_lookup rpc explorer rpc_url address creation_tx_hash bytecode =
     Inl (HTTPException 400 ''no bytecode provided for address '' (JStr address))"
  by (simp add: do_on_chain_lookup_def)

lemma on_chain_no_tx:
  "\<not> absent rpc_url \<Longrightarrow> \<not> absent bytecode \<Longrightarrow>
   resolve_tx rpc rpc_url address creation_tx_hash = Inr tx \<Longrightarrow> \<not> truthy tx \<Longrightarrow>
   do_on_chain_lookup rpc explorer rpc_url address creation_tx_hash bytecode =
     Inl (HTTPException 404 ''creation tx not found for address '' (JStr address))"
  by (simp add: do_on_chain_lookup_def)

lemma on_chain_no_code:
  "\<not> absent rpc_url \<Longrightarrow> \<not> absent bytecode \<Longrightarrow>
   resolve_tx rpc rpc_url address creation_tx_hash = Inr tx \<Longrightarrow> truthy tx \<Longrightarrow>
   get_creation_code rpc tx (str_of rpc_url) = Inr code \<Longrightarrow> \<not> truthy code \<Longrightarrow>
   do_on_chain_lookup rpc explorer rpc_url address creation_tx_hash bytecode =
     Inl (HTTPException 404 ''creation code not found for tx '' tx)"
  by (simp add: do_on_chain_lookup_def)

text \<open>
  C7. The claim gives the resolver four errors and a hex string otherwise. A node that
  answers the contract-creator call, or the transaction call, with the JSON-RPC result
  \<^verbatim>\<open>null\<close> (status 200) makes \<^verbatim>\<open>results["result"]["hash"]\<close>, or
  \<^verbatim>\<open>results["result"]["input"]\<close>, subscript \<^verbatim>\<open>None\<close>: the resolver raises
  \<^verbatim>\<open>TypeError\<close>, not the 404 of lines 48 to 53. A node that does not know the
  contract-creator call answers with an error object and no result: \<^verbatim>\<open>KeyError\<close>.
\<close>

theorem on_chain_null_result:
  "do_on_chain_lookup node_null ''etherscan'' (Some ''http://node'') dai None (Some ''aabbcc'')
     = Inl TypeError \<and>
   do_on_chain_lookup node_null ''etherscan'' (Some ''http://node'') dai (Some ''0x01'')
      (Some ''aabbcc'')
     = Inl TypeError \<and>
   do_on_chain_lookup node_no_method ''etherscan'' (Some ''http://node'') dai None
      (Some ''aabbcc'')
     = Inl (KeyError ''result'')"
  by (simp add: do_on_chain_lookup_def resolve_tx_def absent_def opt_json_def str_of_def
        get_creation_tx_def get_creation_code_def node_null_def node_no_method_def)

text \<open>With a status other than 200 the same two lookups do end in the 404.\<close>

lemma on_chain_node_down:
  "do_on_chain_lookup node_down ''etherscan'' (Some ''http://node'') dai None (Some ''aabbcc'')
     = Inl (HTTPException 404 ''creation tx not found for address '' (JStr dai)) \<and>
   do_on_chain_lookup node_down ''etherscan'' (Some ''http://node'') dai (Some ''0x01'')
      (Some ''aabbcc'')
     = Inl (HTTPException 404 ''creation code not found for tx '' (JStr ''0x01''))"
  by (simp add: do_on_chain_lookup_def resolve_tx_def absent_def opt_json_def str_of_def
        get_creation_tx_def get_creation_code_def node_down_def)

subsection \<open>Frames of the fetcher\<close>

lemma map_of_filter_other: "map_of (filter (\<lambda>e. fst e \<noteq> k) c) k = None"
  by (induction c) auto

lemma map_of_filter_same: "map_of (filter (\<lambda>e. fst e = k) c) k = map_of c k"
  by (induction c) auto

lemma ttl_get_touch: "ttl_get now k (ttl_touch k c) = ttl_get now k c"
  by (simp add: ttl_get_def ttl_touch_def map_add_def map_of_filter_other map_of_filter_same)

lemma map_of_drop_None: "map_of c k = None \<Longrightarrow> map_of (drop n c) k = None"
  by (auto simp: map_of_eq_None_iff dest: in_set_dropD)

lemma map_of_live_None: "map_of (filter (\<lambda>e. P e \<and> fst e \<noteq> k) c) k = None"
  by (induction c) auto

lemma ttl_get_set: "ttl_get now k (ttl_set now k v c) = Some v"
  by (simp add: ttl_get_def ttl_set_def Let_def map_add_def map_of_drop_None map_of_live_None ttl_def)

lemma next_key_frame:
  assumes "next_key s explorer = Inr (apiKey, s')"
  shows "cache s' = cache s" and "weak s' = weak s" and "sent s' = sent s"
  using assms by (auto simp: next_key_def split: option.splits sum.splits)

lemma weak_cache_wrapped_frame:
  assumes "weak_cache_wrapped config web s explorer module action address = (r, s')"
  shows "cache s' = cache s" and "weak s' = weak s"
    and "length (sent s') \<le> Suc (length (sent s))"
  using assms
  by (auto simp: weak_cache_wrapped_def Let_def next_key_frame
      split: option.splits sum.splits http_result.splits if_splits)

lemma weak_cache_frame:
  assumes "weak_cache config web now s explorer module action address = (r, s')"
  shows "cache s' = cache s" and "length (sent s') \<le> Suc (length (sent s))"
  using assms
  by (auto simp: weak_cache_def Let_def weak_cache_wrapped_frame
      split: option.splits sum.splits prod.splits)

lemma map_of_ttl_touch: "map_of (ttl_touch k c) k = map_of c k"
  by (simp add: ttl_touch_def map_add_def map_of_filter_other map_of_filter_same)

lemma map_of_ttl_set: "map_of (ttl_set now k v c) k = Some (v, now + ttl)"
  by (simp add: ttl_set_def Let_def map_add_def map_of_drop_None map_of_live_None)

text \<open>
  After a call of \<^verbatim>\<open>weak_cache\<close> that returns, the TTL cache holds what it returned,
  until \<open>now + ttl\<close> when the call fetched it.
\<close>

lemma weak_cache_entry:
  assumes "weak_cache config web now s explorer module action address = (Inr resp, s1)"
  shows "\<exists>expires. map_of (weak s1) (explorer, module, action, address) = Some (resp, expires) \<and>
           (ttl_get now (explorer, module, action, address) (weak s) = None \<longrightarrow>
              expires = now + ttl)"
proof (cases "ttl_get now (explorer, module, action, address) (weak s)")
  case None
  then obtain s0 where
    "weak_cache_wrapped config web s explorer module action address = (Inr resp, s0)"
    and "s1 = s0\<lparr>weak := ttl_set now (explorer, module, action, address) resp (weak s0)\<rparr>"
    using assms by (auto simp: weak_cache_def split: prod.splits sum.splits)
  then show ?thesis using None by (simp add: map_of_ttl_set)
next
  case (Some v)
  then have "v = resp"
    and s1: "s1 = s\<lparr>weak := ttl_touch (explorer, module, action, address) (weak s)\<rparr>"
    using assms by (auto simp: weak_cache_def)
  moreover obtain expires where
    "map_of (weak s) (explorer, module, action, address) = Some (v, expires)"
    using Some by (auto simp: ttl_get_def split: option.splits if_splits)
  ultimately show ?thesis using Some by (simp add: map_of_ttl_touch)
qed

lemma weak_cache_again:
  assumes "weak_cache config web now s explorer module action address = (Inr resp, s1)"
    and "ttl_get later (explorer, module, action, address) (weak s1) \<noteq> None"
  shows "weak_cache config web later s1 explorer module action address =
           (Inr resp, s1\<lparr>weak := ttl_touch (explorer, module, action, address) (weak s1)\<rparr>)"
proof -
  obtain expires where
    "map_of (weak s1) (explorer, module, action, address) = Some (resp, expires)"
    using weak_cache_entry [OF assms(1)] by blast
  then have "ttl_get later (explorer, module, action, address) (weak s1) = Some resp"
    using assms(2) by (simp add: ttl_get_def split: if_splits)
  then show ?thesis by (simp add: weak_cache_def)
qed

lemma weak_cache_fresh:
  assumes "weak_cache config web now s explorer module action address = (Inr resp, s1)"
    and "ttl_get now (explorer, module, action, address) (weak s) = None"
    and "later < now + ttl"
  shows "ttl_get later (explorer, module, action, address) (weak s1) \<noteq> None"
proof -
  have "map_of (weak s1) (explorer, module, action, address) = Some (resp, now + ttl)"
    using weak_cache_entry [OF assms(1)] assms(2) by auto
  then show ?thesis using assms(3) by (simp add: ttl_get_def)
qed

subsection \<open>What a lookup does to the disk cache\<close>

lemma get_from_upstream_hit:
  "map_of (cache s) (explorer, module, action, address) = Some v \<Longrightarrow>
   get_from_upstream config web now s explorer module action address = (Inr v, s)"
  by (simp add: get_from_upstream_def)

lemma get_from_upstream_wrapped_frame:
  assumes "get_from_upstream_wrapped config web now s explorer module action address = (r, s')"
  shows "cache s' = cache s" and "length (sent s') \<le> Suc (length (sent s))"
  using assms
  by (auto simp: get_from_upstream_wrapped_def weak_cache_frame
      split: prod.splits sum.splits if_splits)

lemma get_from_upstream_wrapped_ok:
  assumes "get_from_upstream_wrapped config web now s explorer module action address = (Inr v, s')"
  shows "is_verified action v = Inr True"
  using assms
  by (auto simp: get_from_upstream_wrapped_def split: prod.splits sum.splits if_splits)

lemma get_from_upstream_stored:
  assumes "get_from_upstream config web now s explorer module action address = (Inr v, s')"
  shows "map_of (cache s') (explorer, module, action, address) = Some v"
  using assms
  by (auto simp: get_from_upstream_def Let_def update_conv'
      split: option.splits prod.splits sum.splits)

lemma get_from_upstream_sent:
  assumes "get_from_upstream config web now s explorer module action address = (r, s')"
  shows "length (sent s') \<le> Suc (length (sent s))"
  using assms
  by (auto simp: get_from_upstream_def Let_def get_from_upstream_wrapped_frame
      split: option.splits prod.splits sum.splits)

lemma list_all_update:
  "list_all P al \<Longrightarrow> P (k, v) \<Longrightarrow> list_all P (AList.update k v al)"
  by (induction al) auto

lemma get_from_upstream_cache:
  assumes "get_from_upstream config web now s explorer module action address = (r, s')"
  shows "cache s' = cache s \<or>
         (\<exists>v. r = Inr v \<and> is_verified action v = Inr True \<and>
              cache s' = AList.update (explorer, module, action, address) v (cache s))"
  using assms
  by (auto simp: get_from_upstream_def Let_def get_from_upstream_wrapped_frame
        get_from_upstream_wrapped_ok
      split: option.splits prod.splits sum.splits)

lemma get_from_upstream_error:
  assumes "get_from_upstream config web now s explorer module action address = (Inl e, s')"
  shows "cache s' = cache s"
  using assms
  by (auto simp: get_from_upstream_def Let_def get_from_upstream_wrapped_frame
      split: option.splits prod.splits sum.splits)

lemma lookup_cache:
  assumes "lookup config web now later s explorer module action address = (r, s')"
  shows "cache s' = cache s \<or>
         (\<exists>v. is_verified action v = Inr True \<and>
              cache s' = AList.update (explorer, module, action, address) v (cache s))"
proof (cases "get_from_upstream config web now s explorer module action address")
  case (Pair r1 s1)
  show ?thesis
  proof (cases "\<exists>code detail. r1 = Inl (ContractNotVerified code detail)")
    case True
    then have "cache s1 = cache s" using Pair get_from_upstream_error by blast
    moreover have "weak_cache config web later s1 explorer module action address = (r, s')"
      using True Pair assms by (auto simp: lookup_def)
    ultimately show ?thesis using weak_cache_frame(1) by metis
  next
    case False
    then have "(r, s') = (r1, s1)"
      using Pair assms by (auto simp: lookup_def split: sum.splits error.splits)
    then show ?thesis using get_from_upstream_cache [OF Pair] by auto
  qed
qed

lemma cached_api_cache:
  assumes "cached_api config cs web now later s explorer module action address = (r, s')"
  shows "cache s' = cache s \<or>
         (\<exists>v a. cs address = Some a \<and> is_verified action v = Inr True \<and>
              cache s' = AList.update (explorer, module, action, a) v (cache s))"
  using assms
  by (auto simp: cached_api_def split: if_splits option.splits dest!: lookup_cache)

lemma constructor_args_cache:
  assumes "constructor_args config cs web rpc now later s explorer address on_chain tx bytecode = (r, s')"
  shows "cache s' = cache s \<or>
         (\<exists>v a. cs address = Some a \<and> is_verified ''getsourcecode'' v = Inr True \<and>
              cache s' = AList.update (explorer, ''contract'', ''getsourcecode'', a) v (cache s))"
  using assms
  by (auto simp: constructor_args_def
      split: if_splits option.splits sum.splits prod.splits dest!: lookup_cache)

lemma invalidate_cache:
  "cache (snd (invalidate s explorer address)) =
     filter (\<lambda>e. \<not> (key1 (fst e), key4 (fst e)) = (explorer, address)) (cache s)"
  by (simp add: invalidate_def Let_def)

lemma serve_cache:
  "cache (serve config cs web rpc c s) = cache s \<or>
   (\<exists>explorer module action address a v. cs address = Some a \<and>
        is_verified action v = Inr True \<and>
        cache (serve config cs web rpc c s) =
          AList.update (explorer, module, action, a) v (cache s)) \<or>
   (\<exists>p. cache (serve config cs web rpc c s) = filter p (cache s))"
proof (cases c)
  case (Api now later explorer module action address)
  obtain r s' where "cached_api config cs web now later s explorer module action address = (r, s')"
    by (cases "cached_api config cs web now later s explorer module action address") auto
  then show ?thesis
    using cached_api_cache [of config cs web now later s explorer module action address r s'] Api
    by auto blast
next
  case (Delete explorer address)
  then show ?thesis using invalidate_cache by auto
next
  case (Args now later explorer address on_chain tx bytecode)
  obtain r s' where
    "constructor_args config cs web rpc now later s explorer address on_chain tx bytecode = (r, s')"
    by (cases "constructor_args config cs web rpc now later s explorer address on_chain tx bytecode")
      auto
  then show ?thesis
    using constructor_args_cache
            [of config cs web rpc now later s explorer address on_chain tx bytecode r s'] Args
    by auto blast
qed

lemma serve_verified_only:
  assumes "verified_only s"
  shows "verified_only (serve config cs web rpc c s)"
  using serve_cache [of config cs web rpc c s] assms
  by (auto simp: verified_only_def key3_def intro!: list_all_update) (simp add: list_all_iff)

lemma run_verified_only:
  "verified_only s \<Longrightarrow> verified_only (run config cs web rpc calls s)"
  unfolding run_def
  by (induction calls arbitrary: s) (auto simp: serve_verified_only)

lemma serve_canonical:
  assumes "\<forall>x c. cs x = Some c \<longrightarrow> cs c = Some c" and "canonical cs s"
  shows "canonical cs (serve config cs web rpc c s)"
  using serve_cache [of config cs web rpc c s] assms
  by (auto simp: canonical_def key4_def intro!: list_all_update) (simp add: list_all_iff)

lemma run_canonical:
  "\<forall>x c. cs x = Some c \<longrightarrow> cs c = Some c \<Longrightarrow> canonical cs s \<Longrightarrow>
   canonical cs (run config cs web rpc calls s)"
  unfolding run_def
  by (induction calls arbitrary: s) (auto simp: serve_canonical)

subsection \<open>Unverified answers\<close>

lemma example_weak_cache:
  "fst (weak_cache example_config (\<lambda>n req. Response 200 (Some j)) now (boot example_config)
          ''etherscan'' module action address) = Inr j"
  by (simp add: weak_cache_def ttl_get_def boot_def example_config_def weak_cache_wrapped_def
      next_key_def cycle_def example_explorer_def)

text \<open>
  C1, as the claim states it, has every answer that fails verification returned raw. The
  fallback of line 103 is a second call of \<^verbatim>\<open>weak_cache\<close> with its own timer reading.
  An unverified answer fetched at time 0 stays in the TTL cache until 3600; a request
  whose first reading is 3599 gets it from there, \<^verbatim>\<open>get_from_upstream\<close> raises
  \<^verbatim>\<open>ContractNotVerified\<close>, and the fallback, reading 3600, finds the entry expired and
  fetches again: with the explorer answering 500 the caller gets that \<^verbatim>\<open>HTTPError\<close>,
  not the answer. And an answer on which line 74 raises (the explorer's rate-limit
  message, whose result is a string) is not returned either: the endpoint fails with
  \<^verbatim>\<open>AttributeError\<close>.
\<close>

theorem unverified_not_returned_counterexample:
  "fst (weak_cache example_config web_unverified_once 3599
          (snd (cached_api example_config example_cs web_unverified_once 0 0 (boot example_config)
                  ''etherscan'' ''contract'' ''getsourcecode'' dai_lower))
          ''etherscan'' ''contract'' ''getsourcecode'' dai) = Inr (reply ''OK'' '''' '''') \<and>
   fst (get_from_upstream example_config web_unverified_once 3599
          (snd (cached_api example_config example_cs web_unverified_once 0 0 (boot example_config)
                  ''etherscan'' ''contract'' ''getsourcecode'' dai_lower))
          ''etherscan'' ''contract'' ''getsourcecode'' dai) =
     Inl (ContractNotVerified 404 ''contract source code not verified'') \<and>
   fst (cached_api example_config example_cs web_unverified_once 3599 3600
          (snd (cached_api example_config example_cs web_unverified_once 0 0 (boot example_config)
                  ''etherscan'' ''contract'' ''getsourcecode'' dai_lower))
          ''etherscan'' ''contract'' ''getsourcecode'' dai_lower) = Inl (HTTPError 500) \<and>
   fst (cached_api example_config example_cs web_rate_limited 0 0 (boot example_config)
          ''etherscan'' ''contract'' ''getsourcecode'' dai_lower) = Inl AttributeError"
  by (simp add: cached_api_def lookup_def example_cs_def
       get_from_upstream_def get_from_upstream_wrapped_def
       weak_cache_def ttl_get_def ttl_set_def ttl_touch_def ttl_def maxsize_def
       boot_def example_config_def weak_cache_wrapped_def
       next_key_def cycle_def example_explorer_def web_unverified_once_def
       web_rate_limited_def rate_limited_def is_verified_def reply_def)

text \<open>
  C1, amended. A lookup of a key the disk cache does not hold, whose answer the
  verification predicate evaluates to false: \<^verbatim>\<open>get_from_upstream\<close> raises
  \<^verbatim>\<open>ContractNotVerified\<close> and the endpoint answers with the fallback, a second call of
  \<^verbatim>\<open>weak_cache\<close> in the state the first call left. The fallback returns the raw answer
  when the TTL cache still holds it at the fallback's timer reading, as it does when the
  first call fetched the answer less than \<open>ttl\<close> seconds before. Whatever the fallback
  returns, the disk cache is what it was, so it holds no entry for the key, and in every
  later state of the service each entry of the disk cache passes the verification
  predicate of its action (given that each did before).
\<close>

theorem unverified_never_stored:
  assumes "verified_only s"
    and "map_of config explorer \<noteq> None" and "action \<in> {''getsourcecode'', ''getabi''}"
    and "cs address = Some a"
    and "map_of (cache s) (explorer, ''contract'', action, a) = None"
    and "fst (weak_cache config web now s explorer ''contract'' action a) = Inr resp"
    and "is_verified action resp = Inr False"
  shows "fst (get_from_upstream config web now s explorer ''contract'' action a) =
           Inl (ContractNotVerified 404 ''contract source code not verified'') \<and>
         cached_api config cs web now later s explorer ''contract'' action address =
           weak_cache config web later
             (snd (weak_cache config web now s explorer ''contract'' action a))
             explorer ''contract'' action a \<and>
         (ttl_get later (explorer, ''contract'', action, a)
            (weak (snd (weak_cache config web now s explorer ''contract'' action a))) \<noteq> None \<longrightarrow>
          fst (cached_api config cs web now later s explorer ''contract'' action address) =
            Inr resp) \<and>
         (ttl_get now (explorer, ''contract'', action, a) (weak s) = None \<and> later < now + ttl \<longrightarrow>
          fst (cached_api config cs web now later s explorer ''contract'' action address) =
            Inr resp) \<and>
         cache (snd (cached_api config cs web now later s explorer ''contract'' action address)) =
           cache s \<and>
         map_of (cache (snd (cached_api config cs web now later s explorer ''contract'' action
                               address)))
           (explorer, ''contract'', action, a) = None \<and>
         verified_only (run config cs web rpc calls
           (snd (cached_api config cs web now later s explorer ''contract'' action address)))"
proof -
  let ?k = "(explorer, ''contract'', action, a)"
  obtain s1 where w: "weak_cache config web now s explorer ''contract'' action a = (Inr resp, s1)"
    using assms(6) by (cases "weak_cache config web now s explorer ''contract'' action a") auto
  have s1: "snd (weak_cache config web now s explorer ''contract'' action a) = s1"
    using w by simp
  have g: "get_from_upstream config web now s explorer ''contract'' action a =
             (Inl (ContractNotVerified 404 ''contract source code not verified''), s1)"
    using w assms(5,7) by (simp add: get_from_upstream_def get_from_upstream_wrapped_def)
  have l: "lookup config web now later s explorer ''contract'' action a =
             weak_cache config web later s1 explorer ''contract'' action a"
    using g by (simp add: lookup_def)
  have c: "cached_api config cs web now later s explorer ''contract'' action address =
             weak_cache config web later s1 explorer ''contract'' action a"
    using l assms(2,3,4) by (auto simp: cached_api_def)
  have live: "fst (cached_api config cs web now later s explorer ''contract'' action address) =
                Inr resp"
    if "ttl_get later ?k (weak s1) \<noteq> None"
    using c weak_cache_again [OF w that] by simp
  have fresh: "fst (cached_api config cs web now later s explorer ''contract'' action address) =
                Inr resp"
    if "ttl_get now ?k (weak s) = None \<and> later < now + ttl"
    using that live weak_cache_fresh [OF w] by blast
  have same: "cache s1 = cache s" using weak_cache_frame(1) [OF w] .
  obtain r2 s2 where w2: "weak_cache config web later s1 explorer ''contract'' action a = (r2, s2)"
    by (cases "weak_cache config web later s1 explorer ''contract'' action a") auto
  have same2: "cache s2 = cache s" using weak_cache_frame(1) [OF w2] same by simp
  have c2: "snd (cached_api config cs web now later s explorer ''contract'' action address) = s2"
    using c w2 by simp
  have v: "verified_only s2"
    using assms(1) same2 by (simp add: verified_only_def)
  show ?thesis
    unfolding c2 s1
    using g c live fresh same2 assms(5) v by (simp add: run_verified_only)
qed

theorem unverified_never_stored_witness:
  "fst (cached_api example_config example_cs web_unverified 0 3599 (boot example_config)
          ''etherscan'' ''contract'' ''getsourcecode'' dai_lower) = Inr (reply ''OK'' '''' '''') \<and>
   cache (snd (cached_api example_config example_cs web_unverified 0 3599 (boot example_config)
          ''etherscan'' ''contract'' ''getsourcecode'' dai_lower)) = []"
proof -
  have 1: "verified_only (boot example_config)"
    by (simp add: verified_only_def boot_def)
  have 2: "map_of example_config ''etherscan'' \<noteq> None"
    by (simp add: example_config_def)
  have 3: "''getsourcecode'' \<in> {''getsourcecode'', ''getabi''}" by simp
  have 4: "example_cs dai_lower = Some dai"
    by (simp add: example_cs_def)
  have 5: "map_of (cache (boot example_config)) (''etherscan'', ''contract'', ''getsourcecode'', dai) = None"
    by (simp add: boot_def)
  have 6: "fst (weak_cache example_config web_unverified 0 (boot example_config)
             ''etherscan'' ''contract'' ''getsourcecode'' dai) = Inr (reply ''OK'' '''' '''')"
    unfolding web_unverified_def by (rule example_weak_cache)
  have 7: "is_verified ''getsourcecode'' (reply ''OK'' '''' '''') = Inr False"
    by (simp add: is_verified_def reply_def)
  have 8: "ttl_get 0 (''etherscan'', ''contract'', ''getsourcecode'', dai)
             (weak (boot example_config)) = None \<and> (3599::nat) < 0 + ttl"
    by (simp add: ttl_get_def boot_def ttl_def)
  have 9: "cache (boot example_config) = []" by (simp add: boot_def)
  note amended =
    unverified_never_stored
      [where cs = example_cs and address = dai_lower and calls = "[]" and later = 3599
       and rpc = node_down, OF 1 2 3 4 5 6 7]
  have "fst (cached_api example_config example_cs web_unverified 0 3599 (boot example_config)
          ''etherscan'' ''contract'' ''getsourcecode'' dai_lower) = Inr (reply ''OK'' '''' '''')"
    using amended 8 by blast
  moreover have "cache (snd (cached_api example_config example_cs web_unverified 0 3599
          (boot example_config) ''etherscan'' ''contract'' ''getsourcecode'' dai_lower)) =
        cache (boot example_config)"
    using amended by blast
  ultimately show ?thesis using 9 by simp
qed

subsection \<open>Repeated lookups\<close>

lemma lookups_hit:
  "map_of (cache s) (explorer, module, action, address) = Some v \<Longrightarrow>
   lookups config web s explorer module action address instants =
     (replicate (length instants) (Inr v), s)"
  by (induction instants) (simp_all add: get_from_upstream_hit)

lemma map_of_update_other: "k' \<noteq> k \<Longrightarrow> map_of (AList.update k' v' al) k = map_of al k"
  by (simp add: update_conv')

lemma get_from_upstream_keeps:
  assumes "map_of (cache s) k = Some v"
    and "get_from_upstream config web now s explorer module action address = (r, s')"
  shows "map_of (cache s') k = Some v"
proof (cases "map_of (cache s) (explorer, module, action, address)")
  case None
  then have ne: "(explorer, module, action, address) \<noteq> k" using assms(1) by auto
  from get_from_upstream_cache [OF assms(2)] show ?thesis
    using assms(1) ne by (auto simp: update_conv')
next
  case (Some w)
  then have "s' = s" using assms(2) by (simp add: get_from_upstream_def)
  then show ?thesis using assms(1) by simp
qed

lemma lookup_keeps:
  assumes "map_of (cache s) k = Some v"
    and "lookup config web now later s explorer module action address = (r, s')"
  shows "map_of (cache s') k = Some v"
proof (cases "get_from_upstream config web now s explorer module action address")
  case (Pair r1 s1)
  then have k1: "map_of (cache s1) k = Some v"
    using assms(1) get_from_upstream_keeps by blast
  show ?thesis
  proof (cases "\<exists>code detail. r1 = Inl (ContractNotVerified code detail)")
    case True
    then have "weak_cache config web later s1 explorer module action address = (r, s')"
      using Pair assms(2) by (auto simp: lookup_def)
    then have "cache s' = cache s1" by (rule weak_cache_frame(1))
    then show ?thesis using k1 by simp
  next
    case False
    then have "(r, s') = (r1, s1)"
      using Pair assms(2) by (auto simp: lookup_def split: sum.splits error.splits)
    then show ?thesis using k1 by simp
  qed
qed

lemma cached_api_keeps:
  assumes "map_of (cache s) k = Some v"
    and "cached_api config cs web now later s explorer module action address = (r, s')"
  shows "map_of (cache s') k = Some v"
  using assms
  by (auto simp: cached_api_def split: if_splits option.splits dest: lookup_keeps)

lemma constructor_args_keeps:
  assumes "map_of (cache s) k = Some v"
    and "constructor_args config cs web rpc now later s explorer address on_chain tx bytecode = (r, s')"
  shows "map_of (cache s') k = Some v"
  using assms
  by (auto simp: constructor_args_def
      split: if_splits option.splits sum.splits prod.splits dest: lookup_keeps)

lemma invalidate_keeps:
  assumes "map_of (cache s) (e, m, a, d) = Some v" and "\<not> (e = explorer \<and> d = address)"
  shows "map_of (cache (snd (invalidate s explorer address))) (e, m, a, d) = Some v"
proof -
  have "map_of (filter (\<lambda>x. \<not> (key1 (fst x), key4 (fst x)) = (explorer, address)) c) (e, m, a, d)
          = map_of c (e, m, a, d)" for c :: "(cache_key \<times> json) list"
    using assms(2) by (induction c) (auto simp: key1_def key4_def)
  then show ?thesis using assms(1) by (simp add: invalidate_cache)
qed

lemma serve_keeps:
  assumes "map_of (cache s) (e, m, a, d) = Some v" and "\<not> deletes c e d"
  shows "map_of (cache (serve config cs web rpc c s)) (e, m, a, d) = Some v"
proof (cases c)
  case (Api now later explorer module action address)
  then show ?thesis
    using assms(1) cached_api_keeps [of s "(e, m, a, d)" v config cs web now later explorer module action address]
    by (cases "cached_api config cs web now later s explorer module action address") auto
next
  case (Delete explorer address)
  then show ?thesis using assms invalidate_keeps by auto
next
  case (Args now later explorer address on_chain tx bytecode)
  then show ?thesis
    using assms(1) constructor_args_keeps
      [of s "(e, m, a, d)" v config cs web rpc now later explorer address on_chain tx bytecode]
    by (cases "constructor_args config cs web rpc now later s explorer address on_chain tx bytecode") auto
qed

lemma run_keeps:
  "map_of (cache s) (e, m, a, d) = Some v \<Longrightarrow> list_all (\<lambda>c. \<not> deletes c e d) calls \<Longrightarrow>
   map_of (cache (run config cs web rpc calls s)) (e, m, a, d) = Some v"
  unfolding run_def
  by (induction calls arbitrary: s) (auto simp: serve_keeps)

text \<open>
  C5. A series of lookups of one key whose first lookup returns a payload (the key is
  verified): every lookup of the series returns that payload, and after the first the
  state stays as it is, so the series sends at most one request upstream. When the disk
  cache holds an entry at the start, the first lookup changes nothing either: the entry
  is returned and nothing is fetched, whatever the explorer would answer. The same holds
  after any other requests served in between, as long as none invalidates the explorer
  and address of the key: a later lookup returns the payload and changes nothing.
\<close>

theorem lookup_coalesced:
  assumes "get_from_upstream config web now s explorer module action address = (Inr v, s')"
  shows "lookups config web s explorer module action address (now # instants) =
           (replicate (Suc (length instants)) (Inr v), s') \<and>
         length (sent s') \<le> Suc (length (sent s)) \<and>
         (map_of (cache s) (explorer, module, action, address) \<noteq> None \<longrightarrow> s' = s) \<and>
         (list_all (\<lambda>c. \<not> deletes c explorer address) calls \<longrightarrow>
            get_from_upstream config web later (run config cs web rpc calls s')
                explorer module action address =
              (Inr v, run config cs web rpc calls s'))"
proof -
  have stored: "map_of (cache s') (explorer, module, action, address) = Some v"
    using assms by (rule get_from_upstream_stored)
  then have "lookups config web s' explorer module action address instants =
           (replicate (length instants) (Inr v), s')"
    by (rule lookups_hit)
  then have 1: "lookups config web s explorer module action address (now # instants) =
           (replicate (Suc (length instants)) (Inr v), s')"
    using assms by simp
  have 2: "length (sent s') \<le> Suc (length (sent s))"
    using assms by (rule get_from_upstream_sent)
  have 3: "map_of (cache s) (explorer, module, action, address) \<noteq> None \<longrightarrow> s' = s"
    using assms by (auto simp: get_from_upstream_def)
  have 4: "get_from_upstream config web later (run config cs web rpc calls s')
                explorer module action address =
              (Inr v, run config cs web rpc calls s')"
    if "list_all (\<lambda>c. \<not> deletes c explorer address) calls"
    using run_keeps [OF stored that] by (rule get_from_upstream_hit)
  show ?thesis using 1 2 3 4 by blast
qed

lemma example_get_from_upstream:
  "fst (get_from_upstream example_config web_once 0 (boot example_config)
          ''etherscan'' ''contract'' ''getsourcecode'' dai) =
     Inr (reply ''OK'' ''contract C {}'' ''00ff'')"
  by (simp add: get_from_upstream_def get_from_upstream_wrapped_def
       weak_cache_def ttl_get_def boot_def example_config_def weak_cache_wrapped_def
      next_key_def cycle_def example_explorer_def web_once_def is_verified_def reply_def)

theorem lookup_coalesced_witness:
  "lookups example_config web_once (boot example_config)
     ''etherscan'' ''contract'' ''getsourcecode'' dai [0, 1, 7200] =
     ([Inr (reply ''OK'' ''contract C {}'' ''00ff''), Inr (reply ''OK'' ''contract C {}'' ''00ff''),
       Inr (reply ''OK'' ''contract C {}'' ''00ff'')],
      snd (get_from_upstream example_config web_once 0 (boot example_config)
             ''etherscan'' ''contract'' ''getsourcecode'' dai)) \<and>
   length (sent (snd (get_from_upstream example_config web_once 0 (boot example_config)
             ''etherscan'' ''contract'' ''getsourcecode'' dai))) \<le> 1 \<and>
   fst (get_from_upstream example_config web_once 9000
          (run example_config example_cs web_once node_down
             [Api 10 10 ''etherscan'' ''contract'' ''getabi'' dai_lower, Delete ''etherscan'' weth]
             (snd (get_from_upstream example_config web_once 0 (boot example_config)
                ''etherscan'' ''contract'' ''getsourcecode'' dai)))
          ''etherscan'' ''contract'' ''getsourcecode'' dai) =
     Inr (reply ''OK'' ''contract C {}'' ''00ff'')"
proof -
  have g: "get_from_upstream example_config web_once 0 (boot example_config)
          ''etherscan'' ''contract'' ''getsourcecode'' dai =
        (Inr (reply ''OK'' ''contract C {}'' ''00ff''),
         snd (get_from_upstream example_config web_once 0 (boot example_config)
             ''etherscan'' ''contract'' ''getsourcecode'' dai))"
    using example_get_from_upstream by (simp add: prod_eq_iff)
  have d: "list_all (\<lambda>c. \<not> deletes c ''etherscan'' dai)
             [Api 10 10 ''etherscan'' ''contract'' ''getabi'' dai_lower, Delete ''etherscan'' weth]"
    by (simp add: weth_neq)
  have b: "sent (boot example_config) = []" by (simp add: boot_def)
  have "lookups example_config web_once (boot example_config)
          ''etherscan'' ''contract'' ''getsourcecode'' dai (0 # [1, 7200]) =
        (replicate (Suc (length [1, 7200::nat])) (Inr (reply ''OK'' ''contract C {}'' ''00ff'')),
         snd (get_from_upstream example_config web_once 0 (boot example_config)
             ''etherscan'' ''contract'' ''getsourcecode'' dai))"
    and "length (sent (snd (get_from_upstream example_config web_once 0 (boot example_config)
             ''etherscan'' ''contract'' ''getsourcecode'' dai))) \<le> Suc (length (sent (boot example_config)))"
    and "get_from_upstream example_config web_once 9000
          (run example_config example_cs web_once node_down
             [Api 10 10 ''etherscan'' ''contract'' ''getabi'' dai_lower, Delete ''etherscan'' weth]
             (snd (get_from_upstream example_config web_once 0 (boot example_config)
                ''etherscan'' ''contract'' ''getsourcecode'' dai)))
          ''etherscan'' ''contract'' ''getsourcecode'' dai =
        (Inr (reply ''OK'' ''contract C {}'' ''00ff''),
         run example_config example_cs web_once node_down
             [Api 10 10 ''etherscan'' ''contract'' ''getabi'' dai_lower, Delete ''etherscan'' weth]
             (snd (get_from_upstream example_config web_once 0 (boot example_config)
                ''etherscan'' ''contract'' ''getsourcecode'' dai)))"
    using lookup_coalesced [OF g, where instants = "[1, 7200]" and later = 9000
        and calls = "[Api 10 10 ''etherscan'' ''contract'' ''getabi'' dai_lower,
                      Delete ''etherscan'' weth]"
        and cs = example_cs and rpc = node_down] d
    by blast+
  then show ?thesis
    by (simp only: b replicate.simps list.size fst_conv One_nat_def) simp
qed

subsection \<open>Invalidation\<close>

text \<open>
  C8. \<^verbatim>\<open>invalidate\<close> removes the entries of every key whose explorer and address are
  the given ones, whatever its module and action, keeps every other entry, returns the
  number of entries removed, and leaves the TTL cache (every entry and its expiry), the
  key iterators and the request log as they are.
\<close>

theorem invalidate_frame:
  "fst (invalidate s explorer address) =
     JObj [(''deleted'',
            JNum (int (length (cache s)) - int (length (cache (snd (invalidate s explorer address))))))] \<and>
   (\<forall>e m a d. map_of (cache (snd (invalidate s explorer address))) (e, m, a, d) =
      (if e = explorer \<and> d = address then None else map_of (cache s) (e, m, a, d))) \<and>
   weak (snd (invalidate s explorer address)) = weak s \<and>
   keys (snd (invalidate s explorer address)) = keys s \<and>
   sent (snd (invalidate s explorer address)) = sent s"
proof -
  let ?hit = "\<lambda>e. (key1 (fst e), key4 (fst e)) = (explorer, address)"
  have c: "cache (snd (invalidate s explorer address)) = filter (\<lambda>e. \<not> ?hit e) (cache s)"
    by (rule invalidate_cache)
  have "length (cache s) =
          length (filter ?hit (cache s)) + length (filter (\<lambda>e. \<not> ?hit e) (cache s))"
    by (rule sum_length_filter_compl [symmetric])
  then have 1: "fst (invalidate s explorer address) =
     JObj [(''deleted'',
            JNum (int (length (cache s)) - int (length (cache (snd (invalidate s explorer address))))))]"
    unfolding c by (simp add: invalidate_def Let_def)
  have 2: "map_of (filter (\<lambda>e. \<not> ?hit e) c) (e, m, a, d) =
      (if e = explorer \<and> d = address then None else map_of c (e, m, a, d))"
    for c :: "(cache_key \<times> json) list" and e m a d
    by (induction c) (auto simp: key1_def key4_def)
  have 3: "\<forall>e m a d. map_of (cache (snd (invalidate s explorer address))) (e, m, a, d) =
      (if e = explorer \<and> d = address then None else map_of (cache s) (e, m, a, d))"
    unfolding c using 2 by blast
  have 4: "weak (snd (invalidate s explorer address)) = weak s \<and>
           keys (snd (invalidate s explorer address)) = keys s \<and>
           sent (snd (invalidate s explorer address)) = sent s"
    by (simp add: invalidate_def Let_def)
  show ?thesis using 1 3 4 by blast
qed

theorem invalidate_frame_witness:
  "fst (invalidate example_state ''etherscan'' dai) = JObj [(''deleted'', JNum 2)] \<and>
   map_of (cache (snd (invalidate example_state ''etherscan'' dai)))
     (''etherscan'', ''contract'', ''getsourcecode'', dai) = None \<and>
   map_of (cache (snd (invalidate example_state ''etherscan'' dai)))
     (''etherscan'', ''contract'', ''getabi'', dai) = None \<and>
   map_of (cache (snd (invalidate example_state ''etherscan'' dai)))
     (''etherscan'', ''contract'', ''getabi'', weth) = Some (abi_reply ''[]'') \<and>
   weak (snd (invalidate example_state ''etherscan'' dai)) =
     [((''etherscan'', ''contract'', ''getabi'', dai), abi_reply ''[]'', 3600)]"
proof -
  have "length (cache (snd (invalidate example_state ''etherscan'' dai))) = 1"
    by (simp add: invalidate_cache example_state_def key1_def key4_def weth_neq)
  moreover have "length (cache example_state) = 3"
    and "map_of (cache example_state) (''etherscan'', ''contract'', ''getabi'', weth)
           = Some (abi_reply ''[]'')"
    and "weak example_state =
           [((''etherscan'', ''contract'', ''getabi'', dai), abi_reply ''[]'', 3600)]"
    by (simp_all add: example_state_def)
  ultimately show ?thesis
    using invalidate_frame [of example_state "''etherscan''" dai] by (simp add: weth_neq)
qed

lemma example_cs_idem: "\<forall>x c. example_cs x = Some c \<longrightarrow> example_cs c = Some c"
  by (auto simp: example_cs_def)

text \<open>
  C10. \<^verbatim>\<open>invalidate\<close> compares the address it is given with the stored keys as it
  is. The keys of the disk cache hold checksummed addresses, in every state the service
  reaches from one where they do (the checksum of a checksummed address being that
  address). So for an address that is not its own checksummed form, \<^verbatim>\<open>invalidate\<close>
  deletes nothing and returns 0, whatever entries the cache holds for the contract.
\<close>

theorem invalidate_exact_match:
  assumes "\<forall>x c. cs x = Some c \<longrightarrow> cs c = Some c"
    and "canonical cs s0"
    and "cs address \<noteq> Some address"
  shows "invalidate (run config cs web rpc calls s0) explorer address =
           (JObj [(''deleted'', JNum 0)], run config cs web rpc calls s0)"
proof -
  let ?s = "run config cs web rpc calls s0"
  have "canonical cs ?s" using assms(1,2) by (rule run_canonical)
  then have "\<forall>e \<in> set (cache ?s). key4 (fst e) \<noteq> address"
    using assms(3) by (auto simp: canonical_def list_all_iff)
  then have "filter (\<lambda>e. (key1 (fst e), key4 (fst e)) = (explorer, address)) (cache ?s) = []"
    and "filter (\<lambda>e. \<not> (key1 (fst e), key4 (fst e)) = (explorer, address)) (cache ?s) = cache ?s"
    by (auto simp: filter_empty_conv filter_id_conv)
  then show ?thesis by (simp add: invalidate_def Let_def)
qed

lemma example_run:
  "cache (run example_config example_cs web_verified rpc
              [Api 0 0 ''etherscan'' ''contract'' ''getsourcecode'' dai_lower] (boot example_config)) =
   [((''etherscan'', ''contract'', ''getsourcecode'', dai), reply ''OK'' ''contract C {}'' ''00ff'')]"
  by (simp add: run_def cached_api_def lookup_def example_cs_def
       get_from_upstream_def get_from_upstream_wrapped_def
       weak_cache_def ttl_get_def boot_def example_config_def weak_cache_wrapped_def
      next_key_def cycle_def example_explorer_def web_verified_def is_verified_def reply_def)

theorem invalidate_exact_match_witness:
  "invalidate (run example_config example_cs web_verified node_null
                 [Api 0 0 ''etherscan'' ''contract'' ''getsourcecode'' dai_lower] (boot example_config))
     ''etherscan'' dai_lower =
     (JObj [(''deleted'', JNum 0)],
      run example_config example_cs web_verified node_null
                 [Api 0 0 ''etherscan'' ''contract'' ''getsourcecode'' dai_lower] (boot example_config)) \<and>
   map_of (cache (run example_config example_cs web_verified node_null
                 [Api 0 0 ''etherscan'' ''contract'' ''getsourcecode'' dai_lower] (boot example_config)))
     (''etherscan'', ''contract'', ''getsourcecode'', dai) =
     Some (reply ''OK'' ''contract C {}'' ''00ff'')"
proof -
  have 1: "canonical example_cs (boot example_config)"
    by (simp add: canonical_def boot_def)
  have 2: "example_cs dai_lower \<noteq> Some dai_lower"
    by (simp add: example_cs_def dai_lower_neq)
  show ?thesis
    using invalidate_exact_match [OF example_cs_idem 1 2] by (simp add: example_run)
qed

subsection \<open>The verification predicate\<close>

lemma is_verified_getsourcecode:
  "getitem resp ''result'' = Inr (JArr (JObj entry # entries)) \<Longrightarrow>
   is_verified ''getsourcecode'' resp =
     Inr (case map_of entry ''SourceCode'' of None \<Rightarrow> False | Some source \<Rightarrow> truthy source)"
  by (simp add: is_verified_def split: option.splits)

lemma is_verified_getabi:
  "getitem resp ''result'' = Inr result \<Longrightarrow>
   is_verified ''getabi'' resp = Inr (result \<noteq> JStr ''Contract source code not verified'')"
  by (simp add: is_verified_def)

lemma is_verified_other:
  "action \<noteq> ''getsourcecode'' \<Longrightarrow> action \<noteq> ''getabi'' \<Longrightarrow>
   is_verified action resp = Inl (NotImplementedError action)"
  by (simp add: is_verified_def)

lemma verified_only_other:
  assumes "verified_only s" and "action \<noteq> ''getsourcecode''" and "action \<noteq> ''getabi''"
  shows "map_of (cache s) (explorer, module, action, address) = None"
proof (rule ccontr)
  assume "map_of (cache s) (explorer, module, action, address) \<noteq> None"
  then obtain v where "((explorer, module, action, address), v) \<in> set (cache s)"
    by (auto dest: map_of_SomeD)
  then have "is_verified action v = Inr True"
    using assms(1) by (auto simp: verified_only_def list_all_iff key3_def)
  then show False using is_verified_other [OF assms(2,3), of v] by simp
qed

lemma get_from_upstream_other:
  assumes "action \<noteq> ''getsourcecode''" and "action \<noteq> ''getabi''"
    and "map_of (cache s) (explorer, module, action, address) = None"
  shows "get_from_upstream config web now s explorer module action address =
           (case weak_cache config web now s explorer module action address of
              (Inl e, s1) \<Rightarrow> (Inl e, s1)
            | (Inr r, s1) \<Rightarrow> (Inl (NotImplementedError action), s1))"
proof (cases "weak_cache config web now s explorer module action address")
  case (Pair r s1)
  then show ?thesis
    using assms(3) is_verified_other [OF assms(1,2)]
    by (cases r) (simp_all add: get_from_upstream_def get_from_upstream_wrapped_def)
qed

lemma get_from_upstream_other_cache:
  assumes "action \<noteq> ''getsourcecode''" and "action \<noteq> ''getabi''"
    and "map_of (cache s) (explorer, module, action, address) = None"
  shows "cache (snd (get_from_upstream config web now s explorer module action address)) = cache s"
proof (cases "weak_cache config web now s explorer module action address")
  case (Pair r s1)
  then have "cache s1 = cache s" by (rule weak_cache_frame(1))
  then show ?thesis
    using Pair get_from_upstream_other [OF assms, of config web now]
    by (cases r) simp_all
qed

lemma getitem0_entry:
  "getitem0 result = Inr entry \<Longrightarrow> dict_get entry k = Inr source \<Longrightarrow>
   \<exists>fs entries. result = JArr (JObj fs # entries) \<and> entry = JObj fs"
  by (cases result rule: getitem0.cases; cases entry) auto

lemma is_verified_getsourcecode_iff:
  "is_verified ''getsourcecode'' resp = Inr True \<longleftrightarrow>
     (\<exists>entry entries source.
        getitem resp ''result'' = Inr (JArr (JObj entry # entries)) \<and>
        map_of entry ''SourceCode'' = Some source \<and> truthy source)"
proof
  assume "is_verified ''getsourcecode'' resp = Inr True"
  then obtain result entry source where r: "getitem resp ''result'' = Inr result"
    and e: "getitem0 result = Inr entry" and s: "dict_get entry ''SourceCode'' = Inr source"
    and t: "truthy source"
    by (auto simp: is_verified_def split: sum.splits)
  from getitem0_entry [OF e s] obtain fs entries where
    "result = JArr (JObj fs # entries)" and "entry = JObj fs" by blast
  then show "\<exists>entry entries source.
        getitem resp ''result'' = Inr (JArr (JObj entry # entries)) \<and>
        map_of entry ''SourceCode'' = Some source \<and> truthy source"
    using r s t by (cases "map_of fs ''SourceCode''") auto
next
  assume "\<exists>entry entries source.
        getitem resp ''result'' = Inr (JArr (JObj entry # entries)) \<and>
        map_of entry ''SourceCode'' = Some source \<and> truthy source"
  then show "is_verified ''getsourcecode'' resp = Inr True"
    by (auto simp: is_verified_getsourcecode)
qed

lemma is_verified_getabi_iff:
  "is_verified ''getabi'' resp = Inr True \<longleftrightarrow>
     (\<exists>result. getitem resp ''result'' = Inr result \<and>
               result \<noteq> JStr ''Contract source code not verified'')"
  by (auto simp: is_verified_def split: sum.splits)

lemma get_from_upstream_unsupported:
  assumes "action \<noteq> ''getsourcecode'' \<and> action \<noteq> ''getabi''" and "verified_only s"
  shows "get_from_upstream config web now s explorer module action address =
           (case weak_cache config web now s explorer module action address of
              (Inl e, s1) \<Rightarrow> (Inl e, s1)
            | (Inr r, s1) \<Rightarrow> (Inl (NotImplementedError action), s1))"
    and "cache (snd (get_from_upstream config web now s explorer module action address)) = cache s"
proof -
  have m: "map_of (cache s) (explorer, module, action, address) = None"
    using assms by (intro verified_only_other) simp_all
  show "get_from_upstream config web now s explorer module action address =
           (case weak_cache config web now s explorer module action address of
              (Inl e, s1) \<Rightarrow> (Inl e, s1)
            | (Inr r, s1) \<Rightarrow> (Inl (NotImplementedError action), s1))"
    using assms(1) m by (intro get_from_upstream_other) simp_all
  show "cache (snd (get_from_upstream config web now s explorer module action address)) = cache s"
    using assms(1) m by (intro get_from_upstream_other_cache) simp_all
qed

text \<open>
  C4, as the claim states it, has every call with another action fail with the
  unsupported-action error at once. \<^verbatim>\<open>get_from_upstream\<close> fetches first: a call
  with the action \<open>getfoo\<close> sends a request, and when the explorer answers 500 the
  call fails with that \<^verbatim>\<open>HTTPError\<close>.
\<close>

theorem unsupported_action_counterexample:
  "fst (get_from_upstream example_config web_down 0 (boot example_config)
           ''etherscan'' ''contract'' ''getfoo'' dai) = Inl (HTTPError 500) \<and>
   fst (get_from_upstream example_config web_down 0 (boot example_config)
           ''etherscan'' ''contract'' ''getfoo'' dai) \<noteq> Inl (NotImplementedError ''getfoo'') \<and>
   sent (snd (get_from_upstream example_config web_down 0 (boot example_config)
           ''etherscan'' ''contract'' ''getfoo'' dai)) =
     [Get ''https://api.etherscan.io/api'' ''contract'' ''getfoo'' dai ''k1'']"
  by (simp add: get_from_upstream_def get_from_upstream_wrapped_def
       weak_cache_def ttl_get_def boot_def example_config_def weak_cache_wrapped_def
      next_key_def cycle_def example_explorer_def web_down_def)

text \<open>
  C4, amended. For \<open>getsourcecode\<close> the predicate is true iff the first result entry is
  an object whose \<open>SourceCode\<close> field is non-empty, and its value for such an entry is
  the truth value of that field (false when the field is missing or empty); for
  \<open>getabi\<close> it is true iff the answer has a result that is not the string
  \<open>Contract source code not verified\<close>; for every other action the predicate raises the
  unsupported-action error whatever the answer is. A call of \<^verbatim>\<open>get_from_upstream\<close>
  with such an action, in a state whose disk cache holds verified entries only, fetches
  the answer once (from the TTL cache or the explorer) and then fails with that error;
  when the fetch fails, its error is raised instead. Either way the disk cache is
  unchanged.
\<close>

theorem verification_predicate:
  "(is_verified ''getsourcecode'' resp = Inr True \<longleftrightarrow>
      (\<exists>entry entries source.
         getitem resp ''result'' = Inr (JArr (JObj entry # entries)) \<and>
         map_of entry ''SourceCode'' = Some source \<and> truthy source)) \<and>
   (is_verified ''getabi'' resp = Inr True \<longleftrightarrow>
      (\<exists>result. getitem resp ''result'' = Inr result \<and>
                result \<noteq> JStr ''Contract source code not verified'')) \<and>
   (getitem resp ''result'' = Inr (JArr (JObj entry # entries)) \<longrightarrow>
      is_verified ''getsourcecode'' resp =
        Inr (case map_of entry ''SourceCode'' of None \<Rightarrow> False | Some source \<Rightarrow> truthy source)) \<and>
   (getitem resp ''result'' = Inr result \<longrightarrow>
      is_verified ''getabi'' resp = Inr (result \<noteq> JStr ''Contract source code not verified'')) \<and>
   (action \<noteq> ''getsourcecode'' \<and> action \<noteq> ''getabi'' \<longrightarrow>
      is_verified action resp = Inl (NotImplementedError action) \<and>
      (verified_only s \<longrightarrow>
         get_from_upstream config web now s explorer module action address =
           (case weak_cache config web now s explorer module action address of
              (Inl e, s1) \<Rightarrow> (Inl e, s1)
            | (Inr r, s1) \<Rightarrow> (Inl (NotImplementedError action), s1)) \<and>
         cache (snd (get_from_upstream config web now s explorer module action address)) = cache s))"
proof (intro conjI impI)
  show "is_verified ''getsourcecode'' resp = Inr True \<longleftrightarrow>
      (\<exists>entry entries source.
         getitem resp ''result'' = Inr (JArr (JObj entry # entries)) \<and>
         map_of entry ''SourceCode'' = Some source \<and> truthy source)"
    by (rule is_verified_getsourcecode_iff)
  show "is_verified ''getabi'' resp = Inr True \<longleftrightarrow>
      (\<exists>result. getitem resp ''result'' = Inr result \<and>
                result \<noteq> JStr ''Contract source code not verified'')"
    by (rule is_verified_getabi_iff)
  show "is_verified ''getsourcecode'' resp =
        Inr (case map_of entry ''SourceCode'' of None \<Rightarrow> False | Some source \<Rightarrow> truthy source)"
    if "getitem resp ''result'' = Inr (JArr (JObj entry # entries))"
    using that by (rule is_verified_getsourcecode)
  show "is_verified ''getabi'' resp = Inr (result \<noteq> JStr ''Contract source code not verified'')"
    if "getitem resp ''result'' = Inr result"
    using that by (rule is_verified_getabi)
  assume o: "action \<noteq> ''getsourcecode'' \<and> action \<noteq> ''getabi''"
  then show "is_verified action resp = Inl (NotImplementedError action)"
    by (simp add: is_verified_other)
  assume v: "verified_only s"
  show "get_from_upstream config web now s explorer module action address =
           (case weak_cache config web now s explorer module action address of
              (Inl e, s1) \<Rightarrow> (Inl e, s1)
            | (Inr r, s1) \<Rightarrow> (Inl (NotImplementedError action), s1))"
    using o v by (rule get_from_upstream_unsupported(1))
  show "cache (snd (get_from_upstream config web now s explorer module action address)) = cache s"
    using o v by (rule get_from_upstream_unsupported(2))
qed

theorem verification_predicate_witness:
  "is_verified ''getsourcecode'' (reply ''OK'' '''' '''') = Inr False \<and>
   is_verified ''getsourcecode'' (reply ''OK'' ''contract C {}'' ''00ff'') = Inr True \<and>
   is_verified ''getsourcecode'' rate_limited \<noteq> Inr True \<and>
   is_verified ''getabi'' (abi_reply ''Contract source code not verified'') = Inr False \<and>
   is_verified ''getabi'' (abi_reply ''[]'') = Inr True \<and>
   fst (get_from_upstream example_config web_verified 0 (boot example_config)
          ''etherscan'' ''contract'' ''getfoo'' dai) = Inl (NotImplementedError ''getfoo'') \<and>
   cache (snd (get_from_upstream example_config web_verified 0 (boot example_config)
          ''etherscan'' ''contract'' ''getfoo'' dai)) = []"
proof -
  have r: "getitem (reply m src a) ''result'' =
             Inr (JArr (JObj [(''SourceCode'', JStr src), (''ABI'', JStr ''[]''),
                              (''ContractName'', JStr ''C''),
                              (''ConstructorArguments'', JStr a)] # []))" for m src a
    by (simp add: reply_def)
  have b: "getitem (abi_reply abi) ''result'' = Inr (JStr abi)" for abi
    by (simp add: abi_reply_def)
  have l: "getitem rate_limited ''result'' = Inr (JStr ''Max rate limit reached'')"
    by (simp add: rate_limited_def)
  have o: "''getfoo'' \<noteq> ''getsourcecode'' \<and> ''getfoo'' \<noteq> ''getabi''" by simp
  have v: "verified_only (boot example_config)"
    by (simp add: verified_only_def boot_def)
  have w: "fst (weak_cache example_config web_verified 0 (boot example_config)
             ''etherscan'' ''contract'' ''getfoo'' dai) = Inr (reply ''OK'' ''contract C {}'' ''00ff'')"
    unfolding web_verified_def by (rule example_weak_cache)
  have c: "cache (boot example_config) = []" by (simp add: boot_def)
  have 1: "is_verified ''getsourcecode'' (reply ''OK'' '''' '''') = Inr False"
    using verification_predicate [where resp = "reply ''OK'' '''' ''''"] r by simp
  have 2: "is_verified ''getsourcecode'' (reply ''OK'' ''contract C {}'' ''00ff'') = Inr True"
    using verification_predicate [where resp = "reply ''OK'' ''contract C {}'' ''00ff''"] r by simp
  have 3: "is_verified ''getsourcecode'' rate_limited \<noteq> Inr True"
    using verification_predicate [where resp = rate_limited] l by simp
  have 4: "is_verified ''getabi'' (abi_reply ''Contract source code not verified'') = Inr False"
    using verification_predicate [where resp = "abi_reply ''Contract source code not verified''"] b
    by simp
  have 5: "is_verified ''getabi'' (abi_reply ''[]'') = Inr True"
    using verification_predicate [where resp = "abi_reply ''[]''"] b by simp
  have 6: "fst (get_from_upstream example_config web_verified 0 (boot example_config)
          ''etherscan'' ''contract'' ''getfoo'' dai) = Inl (NotImplementedError ''getfoo'') \<and>
   cache (snd (get_from_upstream example_config web_verified 0 (boot example_config)
          ''etherscan'' ''contract'' ''getfoo'' dai)) = []"
  proof -
    note unsupported =
      verification_predicate [where resp = "abi_reply ''[]''" and entry = "[]" and entries = "[]"
        and result = "JStr ''[]''" and action = "''getfoo''"
        and s = "boot example_config" and explorer = "''etherscan''" and module = "''contract''"
        and address = dai and config = example_config and web = web_verified and now = 0]
    have g: "get_from_upstream example_config web_verified 0 (boot example_config)
               ''etherscan'' ''contract'' ''getfoo'' dai =
             (case weak_cache example_config web_verified 0 (boot example_config)
                     ''etherscan'' ''contract'' ''getfoo'' dai of
                (Inl e, s1) \<Rightarrow> (Inl e, s1)
              | (Inr r, s1) \<Rightarrow> (Inl (NotImplementedError ''getfoo''), s1))"
      using unsupported o v by blast
    have "cache (snd (get_from_upstream example_config web_verified 0 (boot example_config)
               ''etherscan'' ''contract'' ''getfoo'' dai)) = cache (boot example_config)"
      using unsupported o v by blast
    moreover have "fst (get_from_upstream example_config web_verified 0 (boot example_config)
          ''etherscan'' ''contract'' ''getfoo'' dai) = Inl (NotImplementedError ''getfoo'')"
      using w unfolding g
      by (cases "weak_cache example_config web_verified 0 (boot example_config)
                     ''etherscan'' ''contract'' ''getfoo'' dai") auto
    ultimately show ?thesis using c by simp
  qed
  show ?thesis using 1 2 3 4 5 6 by simp
qed

subsection \<open>The constructor-args endpoint\<close>

lemma example_rpc_url: "rpc_url_of example_config ''etherscan'' = Inr (Some ''http://node'')"
  by (simp add: rpc_url_of_def CHAINS_def RPC_URLS_def example_config_def example_explorer_def)

lemma constructor_args_reported:
  assumes "cs address = Some a" and "rpc_url_of config explorer = Inr rpc_url"
    and "lookup config web now later s explorer ''contract'' ''getsourcecode'' a = (Inr res, s1)"
    and "explorer_args res = Inr (Some args)" and "truthy args"
  shows "constructor_args config cs web rpc now later s explorer address False creation_tx_hash bytecode =
           (Inr (answer a args), s1)"
  using assms by (simp add: constructor_args_def)

lemma constructor_args_fallback:
  assumes "cs address = Some a" and "rpc_url_of config explorer = Inr rpc_url"
    and "lookup config web now later s explorer ''contract'' ''getsourcecode'' a = (Inr res, s1)"
    and "explorer_args res = Inr (Some args)" and "\<not> truthy args"
  shows "constructor_args config cs web rpc now later s explorer address False creation_tx_hash bytecode =
           (case do_on_chain_lookup rpc explorer rpc_url a creation_tx_hash bytecode of
              Inl e \<Rightarrow> (Inl e, s1)
            | Inr args' \<Rightarrow> (Inr (answer a args'), s1))"
  using assms by (simp add: constructor_args_def)

lemma example_lookup:
  "is_verified ''getsourcecode'' j = Inr True \<Longrightarrow>
   fst (lookup example_config (\<lambda>n req. Response 200 (Some j)) now later (boot example_config)
          ''etherscan'' ''contract'' ''getsourcecode'' address) = Inr j"
  by (simp add: lookup_def get_from_upstream_def get_from_upstream_wrapped_def
       weak_cache_def ttl_get_def boot_def example_config_def weak_cache_wrapped_def
      next_key_def cycle_def example_explorer_def)

lemma example_on_chain:
  "do_on_chain_lookup (node_of ''aabbccddeeff'') ''etherscan'' (Some ''http://node'') dai
      None (Some ''aabbcc'') = Inr (JStr ''ddeeff'')"
  by (simp add: do_on_chain_lookup_def resolve_tx_def absent_def opt_json_def str_of_def
        get_creation_tx_def get_creation_code_def node_of_def diff_args_def slice_last_def)

text \<open>
  C6. The claim has the endpoint fall back to the on-chain derivation whenever the
  explorer reports no constructor arguments, whatever the shape of its answer. When the
  answer's message is not \<open>OK\<close> (here the explorer's message for a key it does not
  accept, with a verified source), no branch of lines 190 to 193 assigns \<^verbatim>\<open>args\<close> and
  line 195 raises \<^verbatim>\<open>UnboundLocalError\<close>; when the result list is empty, line 74
  raises \<^verbatim>\<open>IndexError\<close> before that. On the same input the resolver itself, asked for
  with \<^verbatim>\<open>on_chain_lookup\<close>, returns the arguments.
\<close>

theorem constructor_args_unbound:
  "fst (constructor_args example_config example_cs web_keyless (node_of ''aabbccddeeff'') 0 0
          (boot example_config) ''etherscan'' dai_lower False None (Some ''aabbcc''))
     = Inl (UnboundLocalError ''args'') \<and>
   fst (constructor_args example_config example_cs web_empty (node_of ''aabbccddeeff'') 0 0
          (boot example_config) ''etherscan'' dai_lower False None (Some ''aabbcc''))
     = Inl IndexError \<and>
   fst (constructor_args example_config example_cs web_keyless (node_of ''aabbccddeeff'') 0 0
          (boot example_config) ''etherscan'' dai_lower True None (Some ''aabbcc''))
     = Inr (answer dai (JStr ''ddeeff''))"
proof -
  have cs: "example_cs dai_lower = Some dai"
    by (simp add: example_cs_def)
  have v: "is_verified ''getsourcecode''
             (reply ''OK-Missing/Invalid API Key, rate limit of 1/5sec applied'' ''contract C {}'' '''')
           = Inr True"
    by (simp add: is_verified_def reply_def)
  have l: "fst (lookup example_config web_keyless 0 0 (boot example_config)
             ''etherscan'' ''contract'' ''getsourcecode'' dai) =
           Inr (reply ''OK-Missing/Invalid API Key, rate limit of 1/5sec applied'' ''contract C {}'' '''')"
    unfolding web_keyless_def using v by (rule example_lookup)
  have e: "explorer_args
             (reply ''OK-Missing/Invalid API Key, rate limit of 1/5sec applied'' ''contract C {}'' '''')
           = Inr None"
    by (simp add: explorer_args_def reply_def)
  have 1: "fst (constructor_args example_config example_cs web_keyless (node_of ''aabbccddeeff'') 0 0
          (boot example_config) ''etherscan'' dai_lower False None (Some ''aabbcc''))
     = Inl (UnboundLocalError ''args'')"
  proof -
    obtain s1 where "lookup example_config web_keyless 0 0 (boot example_config)
             ''etherscan'' ''contract'' ''getsourcecode'' dai =
           (Inr (reply ''OK-Missing/Invalid API Key, rate limit of 1/5sec applied''
                   ''contract C {}'' ''''), s1)"
      using l by (cases "lookup example_config web_keyless 0 0 (boot example_config)
             ''etherscan'' ''contract'' ''getsourcecode'' dai") auto
    then show ?thesis using e by (simp add: constructor_args_def cs example_rpc_url)
  qed
  have 2: "fst (constructor_args example_config example_cs web_empty (node_of ''aabbccddeeff'') 0 0
          (boot example_config) ''etherscan'' dai_lower False None (Some ''aabbcc''))
     = Inl IndexError"
  proof -
    have "fst (lookup example_config web_empty 0 0 (boot example_config)
             ''etherscan'' ''contract'' ''getsourcecode'' dai) = Inl IndexError"
      by (simp add: lookup_def get_from_upstream_def get_from_upstream_wrapped_def
          weak_cache_def ttl_get_def boot_def example_config_def weak_cache_wrapped_def
          next_key_def cycle_def example_explorer_def web_empty_def is_verified_def)
    then obtain s1 where "lookup example_config web_empty 0 0 (boot example_config)
             ''etherscan'' ''contract'' ''getsourcecode'' dai = (Inl IndexError, s1)"
      by (cases "lookup example_config web_empty 0 0 (boot example_config)
             ''etherscan'' ''contract'' ''getsourcecode'' dai") auto
    then show ?thesis by (simp add: constructor_args_def cs example_rpc_url)
  qed
  have 3: "fst (constructor_args example_config example_cs web_keyless (node_of ''aabbccddeeff'') 0 0
          (boot example_config) ''etherscan'' dai_lower True None (Some ''aabbcc''))
     = Inr (answer dai (JStr ''ddeeff''))"
    by (simp add: constructor_args_def cs example_rpc_url example_on_chain)
  show ?thesis using 1 2 3 by simp
qed

end
